theory Spec2Isabelle
  imports Main
begin

section \<open>The Prometheus publisher of snap: a shallow embedding of prometheus.go\<close>

text \<open>
  The development follows \<^verbatim>\<open>prometheus/prometheus.go\<close>. Go strings are byte
  sequences and are modelled as \<^typ>\<open>string\<close>; Go's \<^verbatim>\<open>int\<close> and
  \<^verbatim>\<open>int64\<close> are modelled as \<^typ>\<open>int\<close>, with the wrap-around of 64-bit
  arithmetic written out where the code multiplies. A panic is a value of the model.
  Logging has no effect on any value the functions return or store and is left out.
\<close>

subsection \<open>Strings: the two regular expressions\<close>

text \<open>
  \<^verbatim>\<open>invalidMetric = regexp.MustCompile("[^a-zA-Z0-9:_]")\<close> and
  \<^verbatim>\<open>invalidLabel = regexp.MustCompile("[^a-zA-Z0-9_]")\<close> are negated character
  classes. Go's \<^verbatim>\<open>regexp\<close> reads its input rune by rune: a byte below 0x80 is a
  rune of its own, a well-formed UTF-8 sequence of two to four bytes is one rune, and
  any other byte is the one-byte rune U+FFFD. Every rune outside the class is one match.
\<close>

definition byte :: "char \<Rightarrow> nat" where
  "byte c = of_char c"

definition in_range :: "nat \<Rightarrow> nat \<Rightarrow> char \<Rightarrow> bool" where
  "in_range lo hi c \<longleftrightarrow> lo \<le> byte c \<and> byte c \<le> hi"

definition alnum :: "char \<Rightarrow> bool" where
  "alnum c \<longleftrightarrow> in_range 97 122 c \<or> in_range 65 90 c \<or> in_range 48 57 c"

definition metric_char :: "char \<Rightarrow> bool" where
  \<comment> \<open>the class \<^verbatim>\<open>[a-zA-Z0-9:_]\<close>\<close>
  "metric_char c \<longleftrightarrow> alnum c \<or> c = CHR '':'' \<or> c = CHR ''_''"

definition label_char :: "char \<Rightarrow> bool" where
  \<comment> \<open>the class \<^verbatim>\<open>[a-zA-Z0-9_]\<close>\<close>
  "label_char c \<longleftrightarrow> alnum c \<or> c = CHR ''_''"

definition second_lo :: "nat \<Rightarrow> nat" where
  \<comment> \<open>lowest second byte that \<^verbatim>\<open>unicode/utf8\<close> accepts after the lead byte\<close>
  "second_lo b = (if b = 224 then 160 else if b = 240 then 144 else 128)"

definition second_hi :: "nat \<Rightarrow> nat" where
  "second_hi b = (if b = 237 then 159 else if b = 244 then 143 else 191)"

fun rune_width :: "string \<Rightarrow> nat" where
  "rune_width [] = 0"
| "rune_width (c # cs) =
     (let b = byte c in
      if b < 128 then 1
      else if 194 \<le> b \<and> b \<le> 223 then
        (case cs of
           c1 # _ \<Rightarrow> if in_range 128 191 c1 then 2 else 1
         | _ \<Rightarrow> 1)
      else if 224 \<le> b \<and> b \<le> 239 then
        (case cs of
           c1 # c2 # _ \<Rightarrow>
             if in_range (second_lo b) (second_hi b) c1 \<and> in_range 128 191 c2 then 3 else 1
         | _ \<Rightarrow> 1)
      else if 240 \<le> b \<and> b \<le> 244 then
        (case cs of
           c1 # c2 # c3 # _ \<Rightarrow>
             if in_range (second_lo b) (second_hi b) c1 \<and> in_range 128 191 c2
                \<and> in_range 128 191 c3 then 4 else 1
         | _ \<Rightarrow> 1)
      else 1)"

fun ReplaceAllString :: "(char \<Rightarrow> bool) \<Rightarrow> string \<Rightarrow> string" where
  \<comment> \<open>\<^verbatim>\<open>re.ReplaceAllString(s, "_")\<close> for the negation of an ASCII class \<open>keep\<close>\<close>
  "ReplaceAllString keep [] = []"
| "ReplaceAllString keep (c # cs) =
     (if byte c < 128 then (if keep c then c else CHR ''_'') # ReplaceAllString keep cs
      else CHR ''_'' # ReplaceAllString keep (drop (rune_width (c # cs) - 1) cs))"

definition sanitize_metric :: "string \<Rightarrow> string" where
  "sanitize_metric v = ReplaceAllString metric_char v"

definition sanitize_label :: "string \<Rightarrow> string" where
  "sanitize_label k = ReplaceAllString label_char k"

definition allowed :: "(char \<Rightarrow> bool) \<Rightarrow> char \<Rightarrow> bool" where
  "allowed keep c \<longleftrightarrow> byte c < 128 \<and> keep c"

fun runes :: "string \<Rightarrow> string list" where
  \<comment> \<open>the runes that Go reads in a string, each with its bytes\<close>
  "runes [] = []"
| "runes (c # cs) = take (rune_width (c # cs)) (c # cs) # runes (drop (rune_width (c # cs) - 1) cs)"

definition replace_rune :: "(char \<Rightarrow> bool) \<Rightarrow> string \<Rightarrow> char" where
  \<comment> \<open>a rune of the class stays, any other rune becomes one underscore\<close>
  "replace_rune keep r = (case r of [c] \<Rightarrow> if allowed keep c then c else CHR ''_'' | _ \<Rightarrow> CHR ''_'')"

subsection \<open>Panics, integers and formatting\<close>

datatype panic =
    SliceBounds \<comment> \<open>slice bounds out of range\<close>
  | IndexOutOfRange
  | NilDereference \<comment> \<open>invalid memory address or nil pointer dereference\<close>
  | InterfaceConversion \<comment> \<open>a failed type assertion \<^verbatim>\<open>x.(T)\<close>\<close>
  | Raised string \<comment> \<open>\<^verbatim>\<open>panic(err)\<close>, with the error's text\<close>

datatype 'a outcome = Panic panic | Return 'a

definition wrap64 :: "int \<Rightarrow> int" where
  \<comment> \<open>the value an int64 holds after an arithmetic result \<open>x\<close>\<close>
  "wrap64 x = (x + 2 ^ 63) mod 2 ^ 64 - 2 ^ 63"

definition digit :: "nat \<Rightarrow> char" where
  "digit d = ''0123456789'' ! d"

fun digits :: "nat \<Rightarrow> string" where
  "digits n = (if n < 10 then [digit n] else digits (n div 10) @ [digit (n mod 10)])"

definition Itoa :: "int \<Rightarrow> string" where
  \<comment> \<open>the verb \<^verbatim>\<open>%d\<close>, and \<^verbatim>\<open>fmt.Sprint\<close> of an integer\<close>
  "Itoa i = (if i < 0 then CHR ''-'' # digits (nat (- i)) else digits (nat i))"

fun Join :: "string list \<Rightarrow> string \<Rightarrow> string" where
  \<comment> \<open>\<^verbatim>\<open>strings.Join\<close>\<close>
  "Join [] sep = []"
| "Join [x] sep = x"
| "Join (x # y # ys) sep = x @ sep @ Join (y # ys) sep"

subsection \<open>Configuration\<close>

text \<open>
  A configuration is a \<^verbatim>\<open>map[string]ctypes.ConfigValue\<close>. The code reads an option
  by a type assertion on the looked-up interface value, which panics when the key is
  missing or holds a value of another type.
\<close>

datatype ConfigValue =
    ConfigValueStr string
  | ConfigValueInt int
  | ConfigValueBool bool
  | ConfigValueFloat \<comment> \<open>the payload is never read by the publisher\<close>

type_synonym config = "string \<rightharpoonup> ConfigValue"

definition assertStr :: "config \<Rightarrow> string \<Rightarrow> string outcome" where
  \<comment> \<open>\<^verbatim>\<open>config[k].(ctypes.ConfigValueStr).Value\<close>\<close>
  "assertStr cfg k = (case cfg k of Some (ConfigValueStr s) \<Rightarrow> Return s | _ \<Rightarrow> Panic InterfaceConversion)"

definition assertInt :: "config \<Rightarrow> string \<Rightarrow> int outcome" where
  "assertInt cfg k = (case cfg k of Some (ConfigValueInt i) \<Rightarrow> Return i | _ \<Rightarrow> Panic InterfaceConversion)"

definition assertBool :: "config \<Rightarrow> string \<Rightarrow> bool outcome" where
  "assertBool cfg k = (case cfg k of Some (ConfigValueBool b) \<Rightarrow> Return b | _ \<Rightarrow> Panic InterfaceConversion)"

subsection \<open>Metrics\<close>

text \<open>
  \<^verbatim>\<open>plugin.MetricType\<close> and \<^verbatim>\<open>core.Namespace\<close> belong to snap itself. A
  namespace is a slice of elements with the fields \<^verbatim>\<open>Value\<close>,
  \<^verbatim>\<open>Description\<close> and \<^verbatim>\<open>Name\<close>; an element is dynamic when its name is not
  empty; \<^verbatim>\<open>Strings()\<close> lists the values and \<^verbatim>\<open>IsDynamic()\<close> the indexes of the
  dynamic elements, in increasing order. The data of a metric is an interface value, of
  which the integer, string and boolean cases are modelled (floating point is not).
\<close>

record NamespaceElement =
  Value :: string
  Description :: string
  Name :: string

datatype data = IntData int | StringData string | BoolData bool

record MetricType =
  Namespace :: "NamespaceElement list"
  Tags :: "string \<rightharpoonup> string"
  Unit :: string
  Data :: data
  Timestamp :: int \<comment> \<open>\<^verbatim>\<open>Timestamp().Unix()\<close>, in seconds\<close>

definition IsDynamicElement :: "NamespaceElement \<Rightarrow> bool" where
  "IsDynamicElement e \<longleftrightarrow> Name e \<noteq> []"

definition Strings :: "NamespaceElement list \<Rightarrow> string list" where
  "Strings n = map Value n"

definition IsDynamic :: "NamespaceElement list \<Rightarrow> bool \<times> nat list" where
  "IsDynamic n = (let idx = filter (\<lambda>i. IsDynamicElement (n ! i)) [0..<length n] in (idx \<noteq> [], idx))"

definition STD_TAG_PLUGIN_RUNNING_ON :: string where
  \<comment> \<open>the constant of snap's \<^verbatim>\<open>core\<close> package\<close>
  "STD_TAG_PLUGIN_RUNNING_ON = ''plugin_running_on''"

definition Sprint :: "data \<Rightarrow> string" where
  \<comment> \<open>\<^verbatim>\<open>fmt.Sprint\<close> of one operand\<close>
  "Sprint d = (case d of IntData i \<Rightarrow> Itoa i | StringData s \<Rightarrow> s
     | BoolData b \<Rightarrow> (if b then ''true'' else ''false''))"

subsection \<open>mangleMetric and prometheusString\<close>

text \<open>
  The first loop of \<^verbatim>\<open>mangleMetric\<close>: \<open>i\<close> counts the iterations, \<open>j\<close> runs over
  the indexes, \<open>n\<close> is the metric's namespace. \<^verbatim>\<open>append(ns[:j-i], ns[j-i+1:]...)\<close>
  panics when \<open>j - i\<close> is negative or \<open>j - i + 1\<close> exceeds the length, and
  \<^verbatim>\<open>m.Namespace()[j]\<close> when \<open>j\<close> is not an index of the namespace.
\<close>

fun remove_dynamic ::
  "NamespaceElement list \<Rightarrow> nat \<Rightarrow> nat list \<Rightarrow> string list \<Rightarrow> (string \<rightharpoonup> string)
   \<Rightarrow> (string list \<times> (string \<rightharpoonup> string)) outcome" where
  "remove_dynamic n i [] ns tags = Return (ns, tags)"
| "remove_dynamic n i (j # js) ns tags =
     (if j < i \<or> length ns < j - i + 1 then Panic SliceBounds
      else if length n \<le> j then Panic IndexOutOfRange
      else remove_dynamic n (i + 1) js (take (j - i) ns @ drop (j - i + 1) ns)
             (tags(Name (n ! j) \<mapsto> Value (n ! j))))"

text \<open>
  The loop over \<^verbatim>\<open>m.Tags()\<close>. Go visits the entries of a map in an order of its
  own choosing; \<open>ks\<close> is the order of the keys in this run of the loop, and a key of
  \<open>ks\<close> that has no entry is not visited.
\<close>

fun process_tags :: "(string \<rightharpoonup> string) \<Rightarrow> string list \<Rightarrow> (string \<rightharpoonup> string) \<Rightarrow> (string \<rightharpoonup> string)" where
  "process_tags mt [] tags = tags"
| "process_tags mt (k # ks) tags =
     (case mt k of
        None \<Rightarrow> process_tags mt ks tags
      | Some v \<Rightarrow>
          if k = STD_TAG_PLUGIN_RUNNING_ON then
            (let tags1 = (if mt ''source'' = None then tags(''source'' \<mapsto> v) else tags);
                 tags2 = (if mt ''host'' = None then tags1(''host'' \<mapsto> v) else tags1)
             in process_tags mt ks tags2)
          else process_tags mt ks (tags(sanitize_label k \<mapsto> v)))"

definition mangleMetric ::
  "MetricType \<Rightarrow> config \<Rightarrow> string list
   \<Rightarrow> (string \<times> (string \<rightharpoonup> string) \<times> string \<times> int) outcome" where
  "mangleMetric m cfg ks =
     (let ns = Strings (Namespace m);
          (isDynamic, indexes) = IsDynamic (Namespace m)
      in case (if isDynamic then remove_dynamic (Namespace m) 0 indexes ns Map.empty
               else Return (ns, Map.empty)) of
           Panic p \<Rightarrow> Panic p
         | Return (ns1, tags1) \<Rightarrow>
             (let ns2 = map sanitize_metric ns1;
                  tags2 = (if Tags m ''unit'' = None then tags1(''unit'' \<mapsto> Unit m) else tags1);
                  tags3 = process_tags (Tags m) ks tags2
              in Return (Join ns2 ''_'', tags3, Sprint (Data m), wrap64 (Timestamp m * 1000))))"

definition label_text :: "string \<Rightarrow> string \<Rightarrow> string" where
  \<comment> \<open>\<^verbatim>\<open>fmt.Sprintf("%s=\"%s\"", k, v)\<close>\<close>
  "label_text k v = k @ [CHR ''='', CHR 0x22] @ v @ [CHR 0x22]"

definition prometheusString :: "string \<Rightarrow> (string \<rightharpoonup> string) \<Rightarrow> string \<Rightarrow> string list \<Rightarrow> string" where
  \<comment> \<open>\<open>ks\<close> is the order in which the loop visits the keys of \<open>tags\<close>\<close>
  "prometheusString name tags value ks =
     (let tmp1 = List.map_filter (\<lambda>k. map_option (label_text k) (tags k)) ks
      in name @ ''{'' @ Join tmp1 '','' @ ''} '' @ value)"

definition metric_line :: "MetricType \<Rightarrow> config \<Rightarrow> string list \<Rightarrow> string list \<Rightarrow> string outcome" where
  \<comment> \<open>the body of the loop of \<^verbatim>\<open>sendMetrics\<close>, without the newline: \<open>ks\<close> is the order
     in which the tags of the metric are visited, \<open>ls\<close> the order of the labels\<close>
  "metric_line m cfg ks ls =
     (case mangleMetric m cfg ks of
        Panic p \<Rightarrow> Panic p
      | Return (name, tags, value, ts) \<Rightarrow> Return (prometheusString name tags value ls))"

subsection \<open>What the first loop is meant to compute\<close>

definition static_segments :: "NamespaceElement list \<Rightarrow> string list" where
  \<comment> \<open>the values of the segments that are not dynamic, in their order\<close>
  "static_segments n = map Value (filter (\<lambda>e. \<not> IsDynamicElement e) n)"

fun dynamic_labels :: "NamespaceElement list \<Rightarrow> (string \<rightharpoonup> string) \<Rightarrow> (string \<rightharpoonup> string)" where
  \<comment> \<open>one label per dynamic segment, added in the order of the segments\<close>
  "dynamic_labels [] tags = tags"
| "dynamic_labels (e # es) tags =
     (if IsDynamicElement e then dynamic_labels es (tags(Name e \<mapsto> Value e))
      else dynamic_labels es tags)"

subsection \<open>The destination URL\<close>

text \<open>
  \<^verbatim>\<open>url.Parse\<close> belongs to Go's library; the embedding takes it as the parameter
  \<open>parse\<close>, which gives either the text of the error or the parsed URL, of which the code
  reads nothing but its \<^verbatim>\<open>String()\<close>. A \<^verbatim>\<open>*url.URL\<close> is an optional such text,
  \<open>None\<close> being the nil pointer, and an \<^verbatim>\<open>error\<close> an optional text, \<open>None\<close> being nil.
\<close>

type_synonym parser = "string \<Rightarrow> string + string"

definition url_text :: "string \<Rightarrow> string \<Rightarrow> int \<Rightarrow> string \<Rightarrow> string \<Rightarrow> string" where
  \<comment> \<open>the two \<^verbatim>\<open>fmt.Sprintf\<close> of \<^verbatim>\<open>prometheusUrl\<close>\<close>
  "url_text prefix host port job instance =
     (if length instance > 0
      then prefix @ ''://'' @ host @ '':'' @ Itoa port @ ''/metrics/job/'' @ job @ ''/instance/'' @ instance
      else prefix @ ''://'' @ host @ '':'' @ Itoa port @ ''/metrics/job/'' @ job)"

definition prometheusUrl :: "parser \<Rightarrow> config \<Rightarrow> (string option \<times> string option) outcome" where
  "prometheusUrl parse cfg =
     (case assertBool cfg ''https'' of Panic p \<Rightarrow> Panic p | Return https \<Rightarrow>
      (let prefix = (if https then ''https'' else ''http'') in
       case assertStr cfg ''instance'' of Panic p \<Rightarrow> Panic p | Return instance \<Rightarrow>
       (case assertStr cfg ''host'' of Panic p \<Rightarrow> Panic p | Return host \<Rightarrow>
        (case assertInt cfg ''port'' of Panic p \<Rightarrow> Panic p | Return port \<Rightarrow>
         (case assertStr cfg ''job'' of Panic p \<Rightarrow> Panic p | Return job \<Rightarrow>
          (let (u, err) = (case parse (url_text prefix host port job instance) of
                             Inl e \<Rightarrow> (None, Some e) | Inr u \<Rightarrow> (Some u, None))
           in if err \<noteq> None then Return (None, err) else Return (u, None)))))))"

subsection \<open>The connection pool\<close>

text \<open>
  \<^verbatim>\<open>clientPool\<close> maps a key to a pointer to a \<^verbatim>\<open>clientConnection\<close>. The store
  \<open>heap\<close> holds the connections by address and \<open>next_addr\<close> is the next address that
  \<^verbatim>\<open>&clientConnection{...}\<close> allocates. The \<^verbatim>\<open>http.Client\<close> of a connection is
  created with it and neither shared nor changed afterwards: it is a field of the
  connection. A time is a number of nanoseconds, as is a \<^verbatim>\<open>time.Duration\<close>; the value
  of \<^verbatim>\<open>time.Now()\<close> is a parameter of the function that reads it. The mutex, and with
  it the interleaving of goroutines, is not modelled: every function runs alone.
\<close>

record http_Client =
  Timeout :: int

record clientConnection =
  Key :: string
  Conn :: http_Client
  LastUsed :: int

record world =
  clientPool :: "string \<rightharpoonup> nat"
  heap :: "nat \<rightharpoonup> clientConnection"
  next_addr :: nat

definition time_Second :: int where
  "time_Second = 1000000000"





definition selectClient ::
  "parser \<Rightarrow> config \<Rightarrow> bool \<Rightarrow> int \<Rightarrow> world \<Rightarrow> ((nat option \<times> string option) \<times> world) outcome" where
  "selectClient parse cfg forceRefresh now w =
     (case prometheusUrl parse cfg of
        Panic p \<Rightarrow> Panic p
      | Return (promUrl, err) \<Rightarrow>
          (case promUrl of
             None \<Rightarrow> Panic NilDereference
           | Some key \<Rightarrow>
               if clientPool w key = None \<or> forceRefresh then
                 (case assertInt cfg ''timeout_secs'' of
                    Panic p \<Rightarrow> Panic p
                  | Return timeoutSecs \<Rightarrow>
                      (let con = \<lparr>Timeout = wrap64 (time_Second * timeoutSecs)\<rparr> in
                       if err \<noteq> None then Return ((None, err), w)
                       else
                         (let a = next_addr w;
                              cCon = \<lparr>Key = key, Conn = con, LastUsed = now\<rparr>;
                              w' = w\<lparr>clientPool := (clientPool w)(key \<mapsto> a),
                                     heap := (heap w)(a \<mapsto> cCon),
                                     next_addr := a + 1\<rparr>
                          in Return ((clientPool w' key, None), w'))))
               else
                 (case clientPool w key of
                    None \<Rightarrow> Panic NilDereference
                  | Some a \<Rightarrow>
                      (case heap w a of
                         None \<Rightarrow> Panic NilDereference
                       | Some c \<Rightarrow>
                           (let w' = w\<lparr>heap := (heap w)(a \<mapsto> c\<lparr>LastUsed := now\<rparr>)\<rparr>
                            in Return ((clientPool w' key, None), w'))))))"




subsection \<open>Sending and publishing\<close>

text \<open>
  What the publisher meets outside of itself is gathered in an environment: the parser
  of URLs, the two decoders of snap, the clock at each attempt, the outcome of the HTTP
  exchange of each attempt (\<open>None\<close> when it succeeds, or the text of the error of
  \<^verbatim>\<open>client.Conn.Do\<close> or \<^verbatim>\<open>ioutil.ReadAll\<close>), the successive values of
  \<^verbatim>\<open>NextBackOff()\<close>, and the orders in which the maps of a metric are visited.
\<close>

record request =
  Method :: string
  URL :: string
  ContentType :: string
  Body :: string

record environment =
  parse :: parser
  gob_decode :: "string \<Rightarrow> string + MetricType list"
  json_unmarshal :: "string \<Rightarrow> string + MetricType list"
  clock :: "nat \<Rightarrow> int"
  transport :: "nat \<Rightarrow> string option"
  backoff :: "nat \<Rightarrow> int"
  orders :: "nat \<Rightarrow> nat \<Rightarrow> string list \<times> string list"

datatype event =
    SelectClient int bool \<comment> \<open>the attempt and its \<^verbatim>\<open>forceRefresh\<close>\<close>
  | Send int request
  | Sleep int int \<comment> \<open>the attempt after which the call sleeps, and the duration\<close>

definition SnapGOBContentType :: string where
  "SnapGOBContentType = ''snap.gob''"

definition SnapJSONContentType :: string where
  "SnapJSONContentType = ''snap.json''"

definition decode :: "environment \<Rightarrow> string \<Rightarrow> string \<Rightarrow> string + MetricType list" where
  \<comment> \<open>the \<^verbatim>\<open>switch contentType\<close> of \<^verbatim>\<open>Publish\<close>\<close>
  "decode env contentType content =
     (if contentType = SnapGOBContentType then gob_decode env content
      else if contentType = SnapJSONContentType then json_unmarshal env content
      else Inl (''Unknown content type '' @ [CHR 0x27] @ contentType @ [CHR 0x27]))"

fun write_metrics :: "config \<Rightarrow> (nat \<Rightarrow> string list \<times> string list) \<Rightarrow> nat \<Rightarrow> MetricType list \<Rightarrow> string outcome" where
  \<comment> \<open>the buffer that the first loop of \<^verbatim>\<open>sendMetrics\<close> fills\<close>
  "write_metrics cfg ord i [] = Return []"
| "write_metrics cfg ord i (m # ms) =
     (case metric_line m cfg (fst (ord i)) (snd (ord i)) of
        Panic p \<Rightarrow> Panic p
      | Return line \<Rightarrow>
          (case write_metrics cfg ord (i + 1) ms of
             Panic p \<Rightarrow> Panic p
           | Return rest \<Rightarrow> Return (line @ [CHR 0x0A] @ rest)))"

definition sendMetrics ::
  "environment \<Rightarrow> config \<Rightarrow> string option \<Rightarrow> nat option \<Rightarrow> MetricType list \<Rightarrow> nat \<Rightarrow> world
   \<Rightarrow> (string option \<times> event list) outcome" where
  \<comment> \<open>\<open>n\<close> is the attempt. \<^verbatim>\<open>http.NewRequest\<close> parses the URL again and gives a nil
     request when that fails, which \<^verbatim>\<open>req.Header.Set\<close> then dereferences.\<close>
  "sendMetrics env cfg promUrl client metrics n w =
     (case write_metrics cfg (orders env n) 0 metrics of
        Panic p \<Rightarrow> Panic p
      | Return buf \<Rightarrow>
          (case assertBool cfg ''replace'' of
             Panic p \<Rightarrow> Panic p
           | Return shouldReplace \<Rightarrow>
               (let httpMethod = (if shouldReplace then ''POST'' else ''PUT'') in
                case promUrl of
                  None \<Rightarrow> Panic NilDereference
                | Some u \<Rightarrow>
                    (case parse env u of
                       Inl e \<Rightarrow> Panic NilDereference
                     | Inr u' \<Rightarrow>
                         (let req = \<lparr>Method = httpMethod, URL = u',
                                     ContentType = ''text/plain; version=0.0.4'', Body = buf\<rparr> in
                          case client of
                            None \<Rightarrow> Panic NilDereference
                          | Some a \<Rightarrow>
                              (case heap w a of
                                 None \<Rightarrow> Panic NilDereference
                               | Some c \<Rightarrow> Return (transport env n, [Send (int n) req])))))))"

definition and_then :: "event list \<Rightarrow> panic option \<times> world \<times> event list \<Rightarrow> panic option \<times> world \<times> event list" where
  \<comment> \<open>the events of one step, before those of the rest of the loop\<close>
  "and_then es r = (case r of (p, w, tr) \<Rightarrow> (p, w, es @ tr))"

text \<open>
  The loop of \<^verbatim>\<open>Publish\<close> from the attempt \<open>retry\<close> on; \<open>b\<close> counts the calls of
  \<^verbatim>\<open>NextBackOff()\<close> made so far. It gives the panic that ended it, if any, the pool
  as it leaves it, and the events in their order.
\<close>

function retry_loop ::
  "environment \<Rightarrow> config \<Rightarrow> string option \<Rightarrow> MetricType list \<Rightarrow> int \<Rightarrow> int \<Rightarrow> nat \<Rightarrow> world
   \<Rightarrow> panic option \<times> world \<times> event list" where
  "retry_loop env cfg promUrl metrics retries retry b w =
     (if retry < retries then
        (let forceRefresh = (retry > 0) in
         case selectClient (parse env) cfg forceRefresh (clock env (nat retry)) w of
           Panic p \<Rightarrow> (Some p, w, [SelectClient retry forceRefresh])
         | Return ((client, err), w1) \<Rightarrow>
             and_then [SelectClient retry forceRefresh]
               (if err \<noteq> None then
                  (if retry + 1 < retries
                   then and_then [Sleep retry (backoff env b)]
                          (retry_loop env cfg promUrl metrics retries (retry + 1) (b + 1) w1)
                   else retry_loop env cfg promUrl metrics retries (retry + 1) b w1)
                else
                  (case sendMetrics env cfg promUrl client metrics (nat retry) w1 of
                     Panic p \<Rightarrow> (Some p, w1, [])
                   | Return (err, sent) \<Rightarrow>
                       and_then sent
                         (if err \<noteq> None then
                            (if retry + 1 < retries
                             then and_then [Sleep retry (backoff env b)]
                                    (retry_loop env cfg promUrl metrics retries (retry + 1) (b + 1) w1)
                             else retry_loop env cfg promUrl metrics retries (retry + 1) b w1)
                          else (None, w1, [])))))
      else (None, w, []))"
  by pat_completeness auto
termination
  by (relation "measure (\<lambda>(env, cfg, promUrl, metrics, retries, retry, b, w). nat (retries - retry))") auto

declare retry_loop.simps [simp del]

definition Publish ::
  "environment \<Rightarrow> string \<Rightarrow> string \<Rightarrow> config \<Rightarrow> world \<Rightarrow> string option outcome \<times> world \<times> event list" where
  \<comment> \<open>the returned error (\<open>None\<close> is nil) or the panic, the pool afterwards, and the events\<close>
  "Publish env contentType content cfg w =
     (case decode env contentType content of
        Inl e \<Rightarrow> (Return (Some e), w, [])
      | Inr metrics \<Rightarrow>
          (case prometheusUrl (parse env) cfg of
             Panic p \<Rightarrow> (Panic p, w, [])
           | Return (promUrl, err) \<Rightarrow>
               (case err of
                  Some e \<Rightarrow> (Panic (Raised e), w, [])
                | None \<Rightarrow>
                    (case assertInt cfg ''retries'' of
                       Panic p \<Rightarrow> (Panic p, w, [])
                     | Return retries \<Rightarrow>
                         (case retry_loop env cfg promUrl metrics retries 0 0 w of
                            (Some p, w', tr) \<Rightarrow> (Panic p, w', tr)
                          | (None, w', tr) \<Rightarrow> (Return None, w', tr))))))"

fun attempts :: "event list \<Rightarrow> (int \<times> bool) list" where
  "attempts [] = []"
| "attempts (SelectClient n f # es) = (n, f) # attempts es"
| "attempts (e # es) = attempts es"

fun slept :: "event list \<Rightarrow> int list" where
  \<comment> \<open>the attempts after which the call slept\<close>
  "slept [] = []"
| "slept (Sleep n d # es) = n # slept es"
| "slept (e # es) = slept es"

definition pool_ok :: "world \<Rightarrow> bool" where
  \<comment> \<open>every pointer of the pool points to a connection of the store, and the next
     address is unused\<close>
  "pool_ok w \<longleftrightarrow> (\<forall>k a. clientPool w k = Some a \<longrightarrow> heap w a \<noteq> None)
     \<and> (\<forall>a. heap w a \<noteq> None \<longrightarrow> a < next_addr w)"


definition no_dangling :: "world \<Rightarrow> bool" where
  \<comment> \<open>every pointer of the pool points to a connection of the store\<close>
  "no_dangling w \<longleftrightarrow> (\<forall>k a. clientPool w k = Some a \<longrightarrow> heap w a \<noteq> None)"


subsection \<open>The attempts that a call is meant to make\<close>

definition failing_from :: "environment \<Rightarrow> int \<Rightarrow> nat \<Rightarrow> nat list" where
  \<comment> \<open>the attempts from \<open>r\<close> on whose exchange fails, up to the first that succeeds\<close>
  "failing_from env retries r = takeWhile (\<lambda>n. transport env n \<noteq> None) [r..<nat retries]"

definition made_from :: "environment \<Rightarrow> int \<Rightarrow> nat \<Rightarrow> nat" where
  \<comment> \<open>their number, and one more for the attempt that succeeds, if one does\<close>
  "made_from env retries r =
     (if r + length (failing_from env retries r) < nat retries
      then length (failing_from env retries r) + 1
      else length (failing_from env retries r))"

definition returns :: "'a outcome \<Rightarrow> bool" where
  \<comment> \<open>not a panic\<close>
  "returns r = (case r of Return x \<Rightarrow> True | Panic p \<Rightarrow> False)"

definition ready :: "environment \<Rightarrow> config \<Rightarrow> world \<Rightarrow> string \<Rightarrow> int \<Rightarrow> bool" where
  \<comment> \<open>nothing makes an attempt panic: the URL is built, and parsed again by
     \<^verbatim>\<open>http.NewRequest\<close>, the options that an attempt reads have their types, and the
     pool has no dangling pointer\<close>
  "ready env cfg w url retries \<longleftrightarrow>
     prometheusUrl (parse env) cfg = Return (Some url, None)
     \<and> \<not> isl (parse env url)
     \<and> returns (assertInt cfg ''timeout_secs'')
     \<and> returns (assertBool cfg ''replace'')
     \<and> assertInt cfg ''retries'' = Return retries
     \<and> pool_ok w"

subsection \<open>Concrete metrics\<close>

definition element :: "string \<Rightarrow> string \<Rightarrow> NamespaceElement" where
  "element v n = \<lparr>Value = v, Description = [], Name = n\<rparr>"

definition two_dynamic :: MetricType where
  \<comment> \<open>\<^verbatim>\<open>/intel/<host_id>/cpu/<core>/user\<close> with the host \<^verbatim>\<open>h1\<close> and the core \<^verbatim>\<open>0\<close>\<close>
  "two_dynamic = \<lparr>Namespace = [element ''intel'' [], element ''h1'' ''host_id'', element ''cpu'' [],
       element ''0'' ''core'', element ''user'' []],
     Tags = Map.empty, Unit = ''jiffies'', Data = IntData 7, Timestamp = 0\<rparr>"


definition cpu_metric :: "int \<Rightarrow> MetricType" where
  \<comment> \<open>\<^verbatim>\<open>/cpu/<core>/percent\<close> with the core \<^verbatim>\<open>0\<close>, the value 42 and no tags\<close>
  "cpu_metric t = \<lparr>Namespace = [element ''cpu'' [], element ''0'' ''core'', element ''percent'' []],
     Tags = Map.empty, Unit = ''percent'', Data = IntData 42, Timestamp = t\<rparr>"

definition running_on_metric :: MetricType where
  "running_on_metric = \<lparr>Namespace = [element ''load'' []],
     Tags = [''plugin_running_on'' \<mapsto> ''h1'', ''rack'' \<mapsto> ''r1''],
     Unit = [], Data = IntData 1, Timestamp = 0\<rparr>"

definition running_on_clash :: MetricType where
  \<comment> \<open>a second tag whose key is sanitized to the reserved key\<close>
  "running_on_clash = \<lparr>Namespace = [element ''load'' []],
     Tags = [''plugin_running_on'' \<mapsto> ''h1'', ''plugin-running-on'' \<mapsto> ''x''],
     Unit = [], Data = IntData 1, Timestamp = 0\<rparr>"

definition same_name_metric :: MetricType where
  \<comment> \<open>two dynamic segments of the same name\<close>
  "same_name_metric = \<lparr>Namespace = [element ''a'' ''id'', element ''mid'' [], element ''b'' ''id''],
     Tags = Map.empty, Unit = ''u'', Data = IntData 1, Timestamp = 0\<rparr>"

definition dynamic_host_metric :: MetricType where
  \<comment> \<open>a dynamic segment named \<^verbatim>\<open>host\<close> on a metric that carries the reserved tag\<close>
  "dynamic_host_metric = \<lparr>Namespace = [element ''web1'' ''host'', element ''load'' []],
     Tags = [''plugin_running_on'' \<mapsto> ''collector7''], Unit = ''u'', Data = IntData 1, Timestamp = 0\<rparr>"

subsection \<open>A concrete gateway\<close>

text \<open>
  For the evaluation of the functions at concrete inputs, a parser that stands for
  \<^verbatim>\<open>url.Parse\<close>: it refuses a text with a percent sign that two hexadecimal digits
  do not follow, which \<^verbatim>\<open>url.Parse\<close> refuses as an invalid URL escape, and gives
  back any other text as it is.
\<close>

definition hex_digit :: "char \<Rightarrow> bool" where
  "hex_digit c \<longleftrightarrow> in_range 48 57 c \<or> in_range 97 102 c \<or> in_range 65 70 c"

fun valid_escapes :: "string \<Rightarrow> bool" where
  "valid_escapes [] = True"
| "valid_escapes (c # cs) =
     (if c = CHR ''%''
      then 2 \<le> length cs \<and> hex_digit (cs ! 0) \<and> hex_digit (cs ! 1) \<and> valid_escapes (drop 2 cs)
      else valid_escapes cs)"

definition escape_parser :: parser where
  "escape_parser s = (if valid_escapes s then Inr s else Inl ''invalid URL escape'')"

definition gateway_config :: "string \<Rightarrow> int \<Rightarrow> int \<Rightarrow> config" where
  \<comment> \<open>the gateway \<^verbatim>\<open>gw:9091\<close> with a job, a number of retries and a timeout\<close>
  "gateway_config job retries timeoutSecs =
     [''host'' \<mapsto> ConfigValueStr ''gw'', ''port'' \<mapsto> ConfigValueInt 9091,
      ''https'' \<mapsto> ConfigValueBool False, ''debug'' \<mapsto> ConfigValueBool False,
      ''job'' \<mapsto> ConfigValueStr job, ''instance'' \<mapsto> ConfigValueStr [],
      ''retries'' \<mapsto> ConfigValueInt retries, ''timeout_secs'' \<mapsto> ConfigValueInt timeoutSecs,
      ''replace'' \<mapsto> ConfigValueBool False]"

definition no_connections :: world where
  "no_connections = \<lparr>clientPool = Map.empty, heap = Map.empty, next_addr = 0\<rparr>"

definition gateway_env :: "(nat \<Rightarrow> string option) \<Rightarrow> environment" where
  \<comment> \<open>an environment in which the exchanges have the given outcomes\<close>
  "gateway_env outcomes =
     \<lparr>parse = escape_parser,
      gob_decode = (\<lambda>content. Inr [cpu_metric 0]),
      json_unmarshal = (\<lambda>content. Inl ''invalid character''),
      clock = (\<lambda>n. int n * time_Second),
      transport = outcomes,
      backoff = (\<lambda>n. 500000000),
      orders = (\<lambda>n i. ([], [''core'', ''unit'']))\<rparr>"



section \<open>Properties\<close>

subsection \<open>Sanitization\<close>

lemma metric_underscore: "allowed metric_char (CHR ''_'')"
  by (simp add: allowed_def metric_char_def byte_def)

lemma label_underscore: "allowed label_char (CHR ''_'')"
  by (simp add: allowed_def label_char_def byte_def)

lemma ReplaceAllString_allowed:
  "allowed keep (CHR ''_'') \<Longrightarrow> list_all (allowed keep) (ReplaceAllString keep s)"
  by (induction keep s rule: ReplaceAllString.induct) (auto simp: allowed_def)

lemma ReplaceAllString_fixed:
  "list_all (allowed keep) s \<Longrightarrow> ReplaceAllString keep s = s"
  by (induction s) (auto simp: allowed_def)

lemma ReplaceAllString_idem:
  "allowed keep (CHR ''_'') \<Longrightarrow>
   ReplaceAllString keep (ReplaceAllString keep s) = ReplaceAllString keep s"
  by (rule ReplaceAllString_fixed) (rule ReplaceAllString_allowed)

lemma rune_width_pos: "0 < rune_width (c # cs)"
  by (auto simp: Let_def split: list.splits)

lemma concat_runes: "concat (runes s) = s"
proof (induction s rule: runes.induct)
  case 1
  show ?case by simp
next
  case (2 c cs)
  have "0 < rune_width (c # cs)" by (rule rune_width_pos)
  then obtain n where n: "rune_width (c # cs) = Suc n"
    by (cases "rune_width (c # cs)") auto
  with 2 show ?case by simp
qed

lemma ReplaceAllString_runes:
  "ReplaceAllString keep s = map (replace_rune keep) (runes s)"
proof (induction keep s rule: ReplaceAllString.induct)
  case (1 keep)
  show ?case by simp
next
  case (2 keep c cs)
  have pos: "0 < rune_width (c # cs)" by (rule rune_width_pos)
  then obtain n where n: "rune_width (c # cs) = Suc n"
    by (cases "rune_width (c # cs)") auto
  show ?case
  proof (cases "byte c < 128")
    case True
    then have w: "rune_width (c # cs) = 1" by simp
    have "replace_rune keep [c] = (if keep c then c else CHR ''_'')"
      using True by (simp add: replace_rune_def allowed_def)
    with True 2 w show ?thesis
      by simp
  next
    case False
    have "replace_rune keep (take (rune_width (c # cs)) (c # cs)) = CHR ''_''"
      using False n by (cases "take n cs") (auto simp: replace_rune_def allowed_def split: list.splits)
    with False 2 show ?thesis
      by simp
  qed
qed

lemma ReplaceAllString_ascii:
  "list_all (\<lambda>c. byte c < 128) s \<Longrightarrow>
   ReplaceAllString keep s = map (\<lambda>c. if keep c then c else CHR ''_'') s"
  by (induction s) auto

lemma ReplaceAllString_fixed_iff:
  "allowed keep (CHR ''_'') \<Longrightarrow> ReplaceAllString keep s = s \<longleftrightarrow> list_all (allowed keep) s"
  using ReplaceAllString_allowed [of keep s] ReplaceAllString_fixed [of keep s] by auto

text \<open>
  Claim C9. Sanitization of a namespace segment is a total function of the string. It
  replaces every rune outside the class \<^verbatim>\<open>[a-zA-Z0-9:_]\<close> by one underscore and
  keeps every other rune: the result is the list of the runes of the string, each
  replaced or kept, and on a string of ASCII characters it is the string with each
  character outside the class replaced. Every character of the result is an ASCII
  character of the class, the strings it leaves unchanged are exactly those made of such
  characters, and it is idempotent.
\<close>

theorem sanitize_metric_idempotent:
  "sanitize_metric (sanitize_metric s) = sanitize_metric s
   \<and> list_all (allowed metric_char) (sanitize_metric s)
   \<and> sanitize_metric s = map (replace_rune metric_char) (runes s)
   \<and> concat (runes s) = s
   \<and> (list_all (\<lambda>c. byte c < 128) s \<longrightarrow>
        sanitize_metric s = map (\<lambda>c. if metric_char c then c else CHR ''_'') s)
   \<and> (sanitize_metric s = s \<longleftrightarrow> list_all (allowed metric_char) s)"
proof (intro conjI impI)
  show "sanitize_metric (sanitize_metric s) = sanitize_metric s"
    unfolding sanitize_metric_def by (rule ReplaceAllString_idem [OF metric_underscore])
  show "list_all (allowed metric_char) (sanitize_metric s)"
    unfolding sanitize_metric_def by (rule ReplaceAllString_allowed [OF metric_underscore])
  show "sanitize_metric s = map (replace_rune metric_char) (runes s)"
    unfolding sanitize_metric_def by (rule ReplaceAllString_runes)
  show "concat (runes s) = s"
    by (rule concat_runes)
  show "sanitize_metric s = map (\<lambda>c. if metric_char c then c else CHR ''_'') s"
    if "list_all (\<lambda>c. byte c < 128) s"
    unfolding sanitize_metric_def using that by (rule ReplaceAllString_ascii)
  show "sanitize_metric s = s \<longleftrightarrow> list_all (allowed metric_char) s"
    unfolding sanitize_metric_def by (rule ReplaceAllString_fixed_iff [OF metric_underscore])
qed

theorem sanitize_metric_idempotent_witness:
  "list_all (\<lambda>c. byte c < 128) ''a:b-c.d'' \<and> sanitize_metric ''a:b-c.d'' = ''a:b_c_d''
   \<and> sanitize_metric ''a:b_c_d'' = ''a:b_c_d''"
proof -
  have h: "list_all (\<lambda>c. byte c < 128) ''a:b-c.d''"
    by (simp add: byte_def)
  from sanitize_metric_idempotent [of "''a:b-c.d''"] h
  have e: "sanitize_metric ''a:b-c.d'' = map (\<lambda>c. if metric_char c then c else CHR ''_'') ''a:b-c.d''"
    by (elim conjE impE)
  also have "\<dots> = ''a:b_c_d''"
    by (simp add: metric_char_def alnum_def in_range_def byte_def)
  finally have r: "sanitize_metric ''a:b-c.d'' = ''a:b_c_d''" .
  from sanitize_metric_idempotent [of "''a:b-c.d''"]
  have "sanitize_metric (sanitize_metric ''a:b-c.d'') = sanitize_metric ''a:b-c.d''"
    by (elim conjE)
  with r have "sanitize_metric ''a:b_c_d'' = ''a:b_c_d''"
    by simp
  with h r show ?thesis
    by (intro conjI)
qed

subsection \<open>The removal of dynamic segments\<close>

lemma idx_Cons:
  "filter (\<lambda>i. P ((e # r) ! i)) [0..<Suc (length r)] =
   (if P e then [0] else []) @ map Suc (filter (\<lambda>i. P (r ! i)) [0..<length r])"
proof -
  have "[0..<Suc (length r)] = 0 # map Suc [0..<length r]"
    by (simp only: upt_conv_Cons [OF zero_less_Suc] map_Suc_upt)
  then show ?thesis
    by (simp add: filter_map comp_def del: upt_Suc)
qed

lemma length_filter_split:
  "length (filter P xs) + length (filter (\<lambda>x. \<not> P x) xs) = length xs"
  by (induction xs) auto

lemma remove_dynamic_general:
  "remove_dynamic (pre @ rest) (length (filter IsDynamicElement pre))
     (map (\<lambda>k. length pre + k) (filter (\<lambda>i. IsDynamicElement (rest ! i)) [0..<length rest]))
     (static_segments pre @ map Value rest) tags
   = Return (static_segments pre @ static_segments rest, dynamic_labels rest tags)"
proof (induction rest arbitrary: pre tags)
  case Nil
  show ?case by (simp add: static_segments_def)
next
  case (Cons e r)
  let ?pre = "pre @ [e]"
  have shift: "map (\<lambda>k. length pre + k) (map Suc (filter (\<lambda>i. IsDynamicElement (r ! i)) [0..<length r]))
      = map (\<lambda>k. length ?pre + k) (filter (\<lambda>i. IsDynamicElement (r ! i)) [0..<length r])"
    by simp
  show ?case
  proof (cases "IsDynamicElement e")
    case False
    have "remove_dynamic (?pre @ r) (length (filter IsDynamicElement ?pre))
        (map (\<lambda>k. length ?pre + k) (filter (\<lambda>i. IsDynamicElement (r ! i)) [0..<length r]))
        (static_segments ?pre @ map Value r) tags
      = Return (static_segments ?pre @ static_segments r, dynamic_labels r tags)"
      by (rule Cons.IH)
    with False show ?thesis
      by (simp add: idx_Cons static_segments_def comp_def del: upt_Suc)
  next
    case True
    have len: "length pre - length (filter IsDynamicElement pre) = length (static_segments pre)"
      using length_filter_split [of IsDynamicElement pre] by (simp add: static_segments_def)
    have le: "length (filter IsDynamicElement pre) \<le> length pre"
      by simp
    have ih: "remove_dynamic (?pre @ r) (length (filter IsDynamicElement ?pre))
        (map (\<lambda>k. length ?pre + k) (filter (\<lambda>i. IsDynamicElement (r ! i)) [0..<length r]))
        (static_segments ?pre @ map Value r) (tags(Name e \<mapsto> Value e))
      = Return (static_segments ?pre @ static_segments r, dynamic_labels r (tags(Name e \<mapsto> Value e)))"
      by (rule Cons.IH)
    have sp: "static_segments ?pre = static_segments pre"
      using True by (simp add: static_segments_def)
    show ?thesis
      using True ih le
      by (simp add: idx_Cons len sp comp_def static_segments_def [of "e # r"]
            static_segments_def [of r] not_less del: upt_Suc)
  qed
qed

lemma remove_dynamic_IsDynamic:
  "remove_dynamic n 0 (snd (IsDynamic n)) (Strings n) tags
   = Return (static_segments n, dynamic_labels n tags)"
  using remove_dynamic_general [of "[]" n tags]
  by (simp add: IsDynamic_def Strings_def static_segments_def Let_def)


lemma dynamic_labels_notin:
  "\<forall>e \<in> set es. IsDynamicElement e \<longrightarrow> Name e \<noteq> x \<Longrightarrow> dynamic_labels es t x = t x"
  by (induction es arbitrary: t) auto

lemma dynamic_labels_last:
  "j < length n \<Longrightarrow> IsDynamicElement (n ! j) \<Longrightarrow>
   \<forall>e \<in> set (drop (Suc j) n). IsDynamicElement e \<longrightarrow> Name e \<noteq> Name (n ! j) \<Longrightarrow>
   dynamic_labels n t (Name (n ! j)) = Some (Value (n ! j))"
proof (induction n arbitrary: j t)
  case Nil
  then show ?case by simp
next
  case (Cons e es)
  show ?case
  proof (cases j)
    case 0
    with Cons.prems have "\<forall>e' \<in> set es. IsDynamicElement e' \<longrightarrow> Name e' \<noteq> Name e"
      by simp
    then have "dynamic_labels es (t(Name e \<mapsto> Value e)) (Name e) = Some (Value e)"
      by (simp add: dynamic_labels_notin)
    with 0 Cons.prems(2) show ?thesis by simp
  next
    case (Suc j')
    with Cons.prems have a: "j' < length es" and b: "IsDynamicElement (es ! j')"
      and c: "\<forall>e \<in> set (drop (Suc j') es). IsDynamicElement e \<longrightarrow> Name e \<noteq> Name (es ! j')"
      by simp_all
    from Cons.IH [OF a b c] Suc show ?thesis by simp
  qed
qed

lemma dynamic_labels_origin:
  "dynamic_labels es t x = Some y \<Longrightarrow>
   t x = Some y \<or> (\<exists>e \<in> set es. IsDynamicElement e \<and> Name e = x \<and> Value e = y)"
proof (induction es arbitrary: t)
  case Nil
  then show ?case by simp
next
  case (Cons a r)
  show ?case
  proof (cases "IsDynamicElement a")
    case False
    with Cons.prems have "dynamic_labels r t x = Some y" by simp
    from Cons.IH [OF this] show ?thesis by auto
  next
    case True
    with Cons.prems have "dynamic_labels r (t(Name a \<mapsto> Value a)) x = Some y" by simp
    from Cons.IH [OF this] True show ?thesis
      by (cases "x = Name a") auto
  qed
qed

lemma process_tags_untouched:
  "x \<notin> sanitize_label ` (dom mt - {STD_TAG_PLUGIN_RUNNING_ON}) \<Longrightarrow>
   mt STD_TAG_PLUGIN_RUNNING_ON \<noteq> None \<longrightarrow> x \<noteq> ''source'' \<and> x \<noteq> ''host'' \<Longrightarrow>
   process_tags mt ks tags x = tags x"
proof (induction ks arbitrary: tags)
  case Nil
  show ?case by simp
next
  case (Cons k ks)
  show ?case
  proof (cases "mt k")
    case None
    with Cons show ?thesis by simp
  next
    case (Some v)
    show ?thesis
    proof (cases "k = STD_TAG_PLUGIN_RUNNING_ON")
      case True
      with Some Cons.prems(2) have "x \<noteq> ''source''" "x \<noteq> ''host''" by simp_all
      with True Some Cons show ?thesis by (simp add: Let_def)
    next
      case False
      with Some have "k \<in> dom mt - {STD_TAG_PLUGIN_RUNNING_ON}" by auto
      with Cons.prems(1) have "sanitize_label k \<noteq> x" by blast
      with False Some Cons show ?thesis by simp
    qed
  qed
qed

lemma mangleMetric_eq:
  "mangleMetric m cfg ks =
     Return (Join (map sanitize_metric (static_segments (Namespace m))) ''_'',
       process_tags (Tags m) ks
         (if Tags m ''unit'' = None then (dynamic_labels (Namespace m) Map.empty)(''unit'' \<mapsto> Unit m)
          else dynamic_labels (Namespace m) Map.empty),
       Sprint (Data m), wrap64 (Timestamp m * 1000))"
proof -
  have loop: "(if fst (IsDynamic (Namespace m))
         then remove_dynamic (Namespace m) 0 (snd (IsDynamic (Namespace m))) (Strings (Namespace m)) Map.empty
         else Return (Strings (Namespace m), Map.empty))
      = Return (static_segments (Namespace m), dynamic_labels (Namespace m) Map.empty)"
  proof (cases "fst (IsDynamic (Namespace m))")
    case True
    then show ?thesis by (simp add: remove_dynamic_IsDynamic)
  next
    case False
    then have "snd (IsDynamic (Namespace m)) = []"
      by (simp add: IsDynamic_def Let_def)
    with False remove_dynamic_IsDynamic [of "Namespace m" Map.empty] show ?thesis
      by simp
  qed
  show ?thesis
    unfolding mangleMetric_def Let_def case_prod_unfold loop
    by simp
qed


text \<open>
  Claim C1, as amended. The loop that removes the \<open>i\<close>-th dynamic segment at index
  \<open>j - i\<close> never panics on the indexes that \<^verbatim>\<open>IsDynamic\<close> returns, and leaves the
  values of exactly the segments that are not dynamic, in their order; the metric name is
  the join of these values, sanitized. The loop writes one label \<open>name = value\<close> per
  dynamic segment, in the order of the segments, so after the loop a dynamic segment has
  its label unless a later dynamic segment has the same name; and the result of
  \<^verbatim>\<open>mangleMetric\<close> holds that label unless, besides, its name is \<^verbatim>\<open>unit\<close>, or the
  sanitized key of a tag other than the reserved one, or \<^verbatim>\<open>source\<close> or
  \<^verbatim>\<open>host\<close> on a metric that carries the reserved tag.
\<close>

theorem mangleMetric_dynamic_segments:
  "remove_dynamic (Namespace m) 0 (snd (IsDynamic (Namespace m))) (Strings (Namespace m)) Map.empty
     = Return (static_segments (Namespace m), dynamic_labels (Namespace m) Map.empty)
   \<and> (\<exists>labels. mangleMetric m cfg ks =
          Return (Join (map sanitize_metric (static_segments (Namespace m))) ''_'', labels,
                  Sprint (Data m), wrap64 (Timestamp m * 1000))
        \<and> (\<forall>j. j < length (Namespace m) \<and> IsDynamicElement (Namespace m ! j)
                \<and> (\<forall>e \<in> set (drop (Suc j) (Namespace m)).
                      IsDynamicElement e \<longrightarrow> Name e \<noteq> Name (Namespace m ! j)) \<longrightarrow>
              dynamic_labels (Namespace m) Map.empty (Name (Namespace m ! j)) = Some (Value (Namespace m ! j))
              \<and> (Name (Namespace m ! j) \<noteq> ''unit''
                  \<and> Name (Namespace m ! j) \<notin> sanitize_label ` (dom (Tags m) - {STD_TAG_PLUGIN_RUNNING_ON})
                  \<and> (Tags m STD_TAG_PLUGIN_RUNNING_ON \<noteq> None \<longrightarrow>
                        Name (Namespace m ! j) \<noteq> ''source'' \<and> Name (Namespace m ! j) \<noteq> ''host'') \<longrightarrow>
                   labels (Name (Namespace m ! j)) = Some (Value (Namespace m ! j)))))"
proof (intro conjI)
  show "remove_dynamic (Namespace m) 0 (snd (IsDynamic (Namespace m))) (Strings (Namespace m)) Map.empty
     = Return (static_segments (Namespace m), dynamic_labels (Namespace m) Map.empty)"
    by (rule remove_dynamic_IsDynamic)
next
  let ?n = "Namespace m"
  let ?t = "if Tags m ''unit'' = None then (dynamic_labels ?n Map.empty)(''unit'' \<mapsto> Unit m)
            else dynamic_labels ?n Map.empty"
  let ?labels = "process_tags (Tags m) ks ?t"
  have eq: "mangleMetric m cfg ks =
      Return (Join (map sanitize_metric (static_segments ?n)) ''_'', ?labels,
              Sprint (Data m), wrap64 (Timestamp m * 1000))"
    by (rule mangleMetric_eq)
  have lab: "\<forall>j. j < length ?n \<and> IsDynamicElement (?n ! j)
                \<and> (\<forall>e \<in> set (drop (Suc j) ?n). IsDynamicElement e \<longrightarrow> Name e \<noteq> Name (?n ! j)) \<longrightarrow>
              dynamic_labels ?n Map.empty (Name (?n ! j)) = Some (Value (?n ! j))
              \<and> (Name (?n ! j) \<noteq> ''unit''
                  \<and> Name (?n ! j) \<notin> sanitize_label ` (dom (Tags m) - {STD_TAG_PLUGIN_RUNNING_ON})
                  \<and> (Tags m STD_TAG_PLUGIN_RUNNING_ON \<noteq> None \<longrightarrow>
                        Name (?n ! j) \<noteq> ''source'' \<and> Name (?n ! j) \<noteq> ''host'') \<longrightarrow>
                   ?labels (Name (?n ! j)) = Some (Value (?n ! j)))"
  proof (intro allI impI conjI)
    fix j
    assume h: "j < length ?n \<and> IsDynamicElement (?n ! j)
                \<and> (\<forall>e \<in> set (drop (Suc j) ?n). IsDynamicElement e \<longrightarrow> Name e \<noteq> Name (?n ! j))"
    then show l: "dynamic_labels ?n Map.empty (Name (?n ! j)) = Some (Value (?n ! j))"
      by (intro dynamic_labels_last) simp_all
    assume k: "Name (?n ! j) \<noteq> ''unit''
                  \<and> Name (?n ! j) \<notin> sanitize_label ` (dom (Tags m) - {STD_TAG_PLUGIN_RUNNING_ON})
                  \<and> (Tags m STD_TAG_PLUGIN_RUNNING_ON \<noteq> None \<longrightarrow>
                        Name (?n ! j) \<noteq> ''source'' \<and> Name (?n ! j) \<noteq> ''host'')"
    then have "?labels (Name (?n ! j)) = ?t (Name (?n ! j))"
      by (intro process_tags_untouched) simp_all
    also have "\<dots> = Some (Value (?n ! j))"
      using k l by simp
    finally show "?labels (Name (?n ! j)) = Some (Value (?n ! j))" .
  qed
  show "\<exists>labels. mangleMetric m cfg ks =
          Return (Join (map sanitize_metric (static_segments ?n)) ''_'', labels,
                  Sprint (Data m), wrap64 (Timestamp m * 1000))
        \<and> (\<forall>j. j < length ?n \<and> IsDynamicElement (?n ! j)
                \<and> (\<forall>e \<in> set (drop (Suc j) ?n). IsDynamicElement e \<longrightarrow> Name e \<noteq> Name (?n ! j)) \<longrightarrow>
              dynamic_labels ?n Map.empty (Name (?n ! j)) = Some (Value (?n ! j))
              \<and> (Name (?n ! j) \<noteq> ''unit''
                  \<and> Name (?n ! j) \<notin> sanitize_label ` (dom (Tags m) - {STD_TAG_PLUGIN_RUNNING_ON})
                  \<and> (Tags m STD_TAG_PLUGIN_RUNNING_ON \<noteq> None \<longrightarrow>
                        Name (?n ! j) \<noteq> ''source'' \<and> Name (?n ! j) \<noteq> ''host'') \<longrightarrow>
                   labels (Name (?n ! j)) = Some (Value (?n ! j))))"
    apply (rule exI [of _ ?labels])
    apply (rule conjI)
     apply (rule eq)
    apply (rule lab)
    done
qed

theorem mangleMetric_dynamic_segments_witness:
  "\<exists>labels. mangleMetric two_dynamic Map.empty [] = Return (''intel_cpu_user'', labels, ''7'', 0)
     \<and> labels ''host_id'' = Some ''h1'' \<and> labels ''core'' = Some ''0''"
proof -
  let ?n = "Namespace two_dynamic"
  from mangleMetric_dynamic_segments [of two_dynamic Map.empty "[]"]
  obtain labels where
    r: "mangleMetric two_dynamic Map.empty [] =
          Return (Join (map sanitize_metric (static_segments ?n)) ''_'', labels,
                  Sprint (Data two_dynamic), wrap64 (Timestamp two_dynamic * 1000))"
    and l: "\<forall>j. j < length ?n \<and> IsDynamicElement (?n ! j)
                \<and> (\<forall>e \<in> set (drop (Suc j) ?n). IsDynamicElement e \<longrightarrow> Name e \<noteq> Name (?n ! j)) \<longrightarrow>
              dynamic_labels ?n Map.empty (Name (?n ! j)) = Some (Value (?n ! j))
              \<and> (Name (?n ! j) \<noteq> ''unit''
                  \<and> Name (?n ! j) \<notin> sanitize_label ` (dom (Tags two_dynamic) - {STD_TAG_PLUGIN_RUNNING_ON})
                  \<and> (Tags two_dynamic STD_TAG_PLUGIN_RUNNING_ON \<noteq> None \<longrightarrow>
                        Name (?n ! j) \<noteq> ''source'' \<and> Name (?n ! j) \<noteq> ''host'') \<longrightarrow>
                   labels (Name (?n ! j)) = Some (Value (?n ! j)))"
    by (elim conjE exE)
  have name: "Join (map sanitize_metric (static_segments ?n)) ''_'' = ''intel_cpu_user''"
    by (simp add: two_dynamic_def element_def static_segments_def IsDynamicElement_def
        sanitize_metric_def metric_char_def alnum_def in_range_def byte_def)
  have v: "Sprint (Data two_dynamic) = ''7''" "wrap64 (Timestamp two_dynamic * 1000) = 0"
    by (simp_all add: two_dynamic_def Sprint_def Itoa_def digit_def wrap64_def)
  from l [rule_format, of 1] have h: "labels ''host_id'' = Some ''h1''"
    by (simp add: two_dynamic_def element_def IsDynamicElement_def)
  from l [rule_format, of 3] have c: "labels ''core'' = Some ''0''"
    by (simp add: two_dynamic_def element_def IsDynamicElement_def)
  from r name v h c show ?thesis
    by (intro exI [of _ labels]) simp
qed

text \<open>
  The claim C1 as it was stated, that the transform adds a label \<open>name = value\<close> for
  each dynamic segment, fails for the label of the first of two dynamic segments of the
  same name, and for a dynamic segment named \<^verbatim>\<open>host\<close> on a metric with the reserved
  tag, whose label the value of the tag replaces.
\<close>

theorem mangleMetric_dynamic_segments_counterexample:
  "(case mangleMetric same_name_metric Map.empty [] of
      Return (name, labels, value, ts) \<Rightarrow> name = ''mid'' \<and> labels ''id'' = Some ''b'' \<and> labels ''id'' \<noteq> Some ''a''
    | Panic p \<Rightarrow> False)
   \<and> (case mangleMetric dynamic_host_metric Map.empty [''plugin_running_on''] of
      Return (name, labels, value, ts) \<Rightarrow> name = ''load'' \<and> labels ''host'' = Some ''collector7'' \<and> labels ''host'' \<noteq> Some ''web1''
    | Panic p \<Rightarrow> False)"
  by (simp add: mangleMetric_def same_name_metric_def dynamic_host_metric_def element_def
        IsDynamic_def IsDynamicElement_def Strings_def STD_TAG_PLUGIN_RUNNING_ON_def
        sanitize_metric_def metric_char_def alnum_def in_range_def byte_def Let_def)


subsection \<open>The tags of a metric\<close>

lemma no_underscore_fixed:
  "CHR ''_'' \<notin> set (ReplaceAllString keep k) \<Longrightarrow> ReplaceAllString keep k = k"
  by (induction keep k rule: ReplaceAllString.induct) (auto split: if_splits)

lemma sanitize_label_source: "sanitize_label k = ''source'' \<Longrightarrow> k = ''source''"
  using no_underscore_fixed [of label_char k] by (simp add: sanitize_label_def)

lemma sanitize_label_host: "sanitize_label k = ''host'' \<Longrightarrow> k = ''host''"
  using no_underscore_fixed [of label_char k] by (simp add: sanitize_label_def)

lemma STD_neq: "STD_TAG_PLUGIN_RUNNING_ON \<noteq> ''source''" "STD_TAG_PLUGIN_RUNNING_ON \<noteq> ''host''"
  "STD_TAG_PLUGIN_RUNNING_ON \<noteq> ''unit''"
  by (simp_all add: STD_TAG_PLUGIN_RUNNING_ON_def)

lemma process_tags_stable:
  assumes "x = ''source'' \<or> x = ''host''" "mt x = None" "mt STD_TAG_PLUGIN_RUNNING_ON = Some v"
    "tags x = Some v"
  shows "process_tags mt ks tags x = Some v"
  using assms(4)
proof (induction ks arbitrary: tags)
  case Nil
  then show ?case by simp
next
  case (Cons k ks)
  show ?case
  proof (cases "mt k")
    case None
    with Cons show ?thesis by simp
  next
    case (Some w)
    show ?thesis
    proof (cases "k = STD_TAG_PLUGIN_RUNNING_ON")
      case True
      with Some assms(3) have "w = v" by simp
      with True Some Cons.prems show ?thesis
        by (auto simp: Let_def intro!: Cons.IH)
    next
      case False
      have "sanitize_label k \<noteq> x"
        using assms(1,2) Some sanitize_label_source [of k] sanitize_label_host [of k] by auto
      with False Some Cons.prems show ?thesis
        by (auto intro!: Cons.IH)
    qed
  qed
qed

lemma process_tags_writes:
  assumes "x = ''source'' \<or> x = ''host''" "mt x = None" "mt STD_TAG_PLUGIN_RUNNING_ON = Some v"
    "STD_TAG_PLUGIN_RUNNING_ON \<in> set ks"
  shows "process_tags mt ks tags x = Some v"
  using assms(4)
proof (induction ks arbitrary: tags)
  case Nil
  then show ?case by simp
next
  case (Cons k ks)
  show ?case
  proof (cases "k = STD_TAG_PLUGIN_RUNNING_ON")
    case True
    let ?t1 = "if mt ''source'' = None then tags(''source'' \<mapsto> v) else tags"
    let ?t2 = "if mt ''host'' = None then ?t1(''host'' \<mapsto> v) else ?t1"
    have "?t2 x = Some v"
      using assms(1,2) by auto
    then have "process_tags mt ks ?t2 x = Some v"
      by (rule process_tags_stable [OF assms(1-3)])
    with True assms(3) show ?thesis
      by (simp add: Let_def)
  next
    case False
    with Cons show ?thesis
      by (cases "mt k") auto
  qed
qed

lemma process_tags_origin:
  "process_tags mt ks tags x = Some y \<Longrightarrow> x \<noteq> ''source'' \<Longrightarrow> x \<noteq> ''host'' \<Longrightarrow>
   tags x = Some y \<or> (\<exists>k \<in> dom mt. k \<noteq> STD_TAG_PLUGIN_RUNNING_ON \<and> sanitize_label k = x)"
proof (induction ks arbitrary: tags)
  case Nil
  then show ?case by simp
next
  case (Cons k ks)
  show ?case
  proof (cases "mt k")
    case None
    with Cons show ?thesis by simp
  next
    case (Some w)
    show ?thesis
    proof (cases "k = STD_TAG_PLUGIN_RUNNING_ON")
      case True
      let ?t1 = "if mt ''source'' = None then tags(''source'' \<mapsto> w) else tags"
      let ?t2 = "if mt ''host'' = None then ?t1(''host'' \<mapsto> w) else ?t1"
      from True Some Cons.prems(1) have "process_tags mt ks ?t2 x = Some y"
        by (simp add: Let_def)
      from Cons.IH [OF this Cons.prems(2,3)]
      have "?t2 x = Some y \<or> (\<exists>k \<in> dom mt. k \<noteq> STD_TAG_PLUGIN_RUNNING_ON \<and> sanitize_label k = x)" .
      moreover have "?t2 x = tags x"
        using Cons.prems(2,3) by simp
      ultimately show ?thesis by simp
    next
      case False
      with Some Cons.prems have "process_tags mt ks (tags(sanitize_label k \<mapsto> w)) x = Some y"
        by simp
      from Cons.IH [OF this Cons.prems(2,3)] False Some show ?thesis
        by (cases "sanitize_label k = x") auto
    qed
  qed
qed

lemma process_tags_empty: "process_tags Map.empty ks tags = tags"
  by (induction ks) auto



text \<open>
  Claim C7, as amended. When the tags of a metric hold the reserved tag
  \<^verbatim>\<open>plugin_running_on\<close> with the value \<open>v\<close> and the loop visits the keys of the tags,
  the labels hold \<open>source = v\<close> unless a tag \<^verbatim>\<open>source\<close> was supplied and \<open>host = v\<close>
  unless a tag \<^verbatim>\<open>host\<close> was supplied. The entry of the reserved tag is not copied
  under its own key: the reserved key is a label key only when a dynamic segment of the
  namespace has that name or when the key of another tag is sanitized to it.
\<close>

theorem mangleMetric_running_on:
  assumes "Tags m STD_TAG_PLUGIN_RUNNING_ON = Some v" and "set ks = dom (Tags m)"
  shows "\<exists>name labels value ts. mangleMetric m cfg ks = Return (name, labels, value, ts)
     \<and> (Tags m ''source'' = None \<longrightarrow> labels ''source'' = Some v)
     \<and> (Tags m ''host'' = None \<longrightarrow> labels ''host'' = Some v)
     \<and> (labels STD_TAG_PLUGIN_RUNNING_ON \<noteq> None \<longrightarrow>
          (\<exists>e \<in> set (Namespace m). IsDynamicElement e \<and> Name e = STD_TAG_PLUGIN_RUNNING_ON)
          \<or> (\<exists>k \<in> dom (Tags m). k \<noteq> STD_TAG_PLUGIN_RUNNING_ON
                \<and> sanitize_label k = STD_TAG_PLUGIN_RUNNING_ON))"
proof -
  let ?d = "dynamic_labels (Namespace m) Map.empty"
  let ?t = "if Tags m ''unit'' = None then ?d(''unit'' \<mapsto> Unit m) else ?d"
  let ?labels = "process_tags (Tags m) ks ?t"
  have name: "mangleMetric m cfg ks =
      Return (Join (map sanitize_metric (static_segments (Namespace m))) ''_'', ?labels,
              Sprint (Data m), wrap64 (Timestamp m * 1000))"
    by (rule mangleMetric_eq)
  from assms(1) have "STD_TAG_PLUGIN_RUNNING_ON \<in> dom (Tags m)"
    by (rule domI)
  with assms(2) have visited: "STD_TAG_PLUGIN_RUNNING_ON \<in> set ks"
    by simp
  have src: "Tags m ''source'' = None \<longrightarrow> ?labels ''source'' = Some v"
    using process_tags_writes [of "''source''" "Tags m" v ks] assms(1) visited by simp
  have host: "Tags m ''host'' = None \<longrightarrow> ?labels ''host'' = Some v"
    using process_tags_writes [of "''host''" "Tags m" v ks] assms(1) visited by simp
  have own: "?labels STD_TAG_PLUGIN_RUNNING_ON \<noteq> None \<longrightarrow>
          (\<exists>e \<in> set (Namespace m). IsDynamicElement e \<and> Name e = STD_TAG_PLUGIN_RUNNING_ON)
          \<or> (\<exists>k \<in> dom (Tags m). k \<noteq> STD_TAG_PLUGIN_RUNNING_ON
                \<and> sanitize_label k = STD_TAG_PLUGIN_RUNNING_ON)"
  proof
    assume "?labels STD_TAG_PLUGIN_RUNNING_ON \<noteq> None"
    then obtain y where y: "?labels STD_TAG_PLUGIN_RUNNING_ON = Some y"
      by blast
    from process_tags_origin [OF y STD_neq(1,2)]
    show "(\<exists>e \<in> set (Namespace m). IsDynamicElement e \<and> Name e = STD_TAG_PLUGIN_RUNNING_ON)
          \<or> (\<exists>k \<in> dom (Tags m). k \<noteq> STD_TAG_PLUGIN_RUNNING_ON
                \<and> sanitize_label k = STD_TAG_PLUGIN_RUNNING_ON)"
    proof
      assume "?t STD_TAG_PLUGIN_RUNNING_ON = Some y"
      then have "?d STD_TAG_PLUGIN_RUNNING_ON = Some y"
        using STD_neq(3) by (simp split: if_splits)
      from dynamic_labels_origin [OF this] show ?thesis
        by auto
    next
      assume "\<exists>k \<in> dom (Tags m). k \<noteq> STD_TAG_PLUGIN_RUNNING_ON
                \<and> sanitize_label k = STD_TAG_PLUGIN_RUNNING_ON"
      then show ?thesis ..
    qed
  qed
  show ?thesis
    apply (rule exI [of _ "Join (map sanitize_metric (static_segments (Namespace m))) ''_''"])
    apply (rule exI [of _ ?labels])
    apply (rule exI [of _ "Sprint (Data m)"])
    apply (rule exI [of _ "wrap64 (Timestamp m * 1000)"])
    apply (intro conjI)
       apply (rule name)
      apply (rule src)
     apply (rule host)
    apply (rule own)
    done
qed


theorem mangleMetric_running_on_witness:
  "\<exists>name labels value ts.
     mangleMetric running_on_metric Map.empty [''rack'', ''plugin_running_on''] = Return (name, labels, value, ts)
     \<and> labels ''source'' = Some ''h1'' \<and> labels ''host'' = Some ''h1''
     \<and> labels STD_TAG_PLUGIN_RUNNING_ON = None"
proof -
  have a: "Tags running_on_metric STD_TAG_PLUGIN_RUNNING_ON = Some ''h1''"
    by (simp add: running_on_metric_def STD_TAG_PLUGIN_RUNNING_ON_def)
  have b: "set [''rack'', ''plugin_running_on''] = dom (Tags running_on_metric)"
    by (auto simp: running_on_metric_def)
  have c: "Tags running_on_metric ''source'' = None" "Tags running_on_metric ''host'' = None"
    by (simp_all add: running_on_metric_def)
  have d: "\<not> (\<exists>e \<in> set (Namespace running_on_metric). IsDynamicElement e \<and> Name e = STD_TAG_PLUGIN_RUNNING_ON)"
    by (simp add: running_on_metric_def element_def IsDynamicElement_def)
  have e: "\<not> (\<exists>k \<in> dom (Tags running_on_metric). k \<noteq> STD_TAG_PLUGIN_RUNNING_ON
                \<and> sanitize_label k = STD_TAG_PLUGIN_RUNNING_ON)"
    by (simp add: running_on_metric_def STD_TAG_PLUGIN_RUNNING_ON_def sanitize_label_def
          label_char_def alnum_def in_range_def byte_def)
  from mangleMetric_running_on [OF a b, of Map.empty]
  obtain name labels "value" ts where
    r: "mangleMetric running_on_metric Map.empty [''rack'', ''plugin_running_on''] = Return (name, labels, value, ts)"
    and s: "Tags running_on_metric ''source'' = None \<longrightarrow> labels ''source'' = Some ''h1''"
    and h: "Tags running_on_metric ''host'' = None \<longrightarrow> labels ''host'' = Some ''h1''"
    and own: "labels STD_TAG_PLUGIN_RUNNING_ON \<noteq> None \<longrightarrow>
          (\<exists>e \<in> set (Namespace running_on_metric). IsDynamicElement e \<and> Name e = STD_TAG_PLUGIN_RUNNING_ON)
          \<or> (\<exists>k \<in> dom (Tags running_on_metric). k \<noteq> STD_TAG_PLUGIN_RUNNING_ON
                \<and> sanitize_label k = STD_TAG_PLUGIN_RUNNING_ON)"
    by (elim exE conjE)
  from s c(1) have s': "labels ''source'' = Some ''h1''" by (rule mp)
  from h c(2) have h': "labels ''host'' = Some ''h1''" by (rule mp)
  have o': "labels STD_TAG_PLUGIN_RUNNING_ON = None"
  proof (rule ccontr)
    assume "labels STD_TAG_PLUGIN_RUNNING_ON \<noteq> None"
    with own d e show False by (elim impE disjE) simp_all
  qed
  from r s' h' o' show ?thesis
    by (intro exI conjI)
qed


text \<open>
  The claim C7 as it was stated, that the reserved key is never a label key, fails for
  a metric with the tags \<^verbatim>\<open>plugin_running_on\<close> and \<^verbatim>\<open>plugin-running-on\<close>: the
  second key is sanitized to the reserved key, in whichever order the two are visited.
\<close>

theorem running_on_key_counterexample:
  "Tags running_on_clash STD_TAG_PLUGIN_RUNNING_ON = Some ''h1''
   \<and> (case mangleMetric running_on_clash Map.empty [''plugin_running_on'', ''plugin-running-on''] of
        Return (name, labels, value, ts) \<Rightarrow> labels STD_TAG_PLUGIN_RUNNING_ON = Some ''x''
      | Panic p \<Rightarrow> False)
   \<and> (case mangleMetric running_on_clash Map.empty [''plugin-running-on'', ''plugin_running_on''] of
        Return (name, labels, value, ts) \<Rightarrow> labels STD_TAG_PLUGIN_RUNNING_ON = Some ''x''
      | Panic p \<Rightarrow> False)"
  by (simp add: mangleMetric_def running_on_clash_def element_def IsDynamic_def IsDynamicElement_def
        Strings_def STD_TAG_PLUGIN_RUNNING_ON_def sanitize_label_def label_char_def alnum_def
        in_range_def byte_def Let_def)


subsection \<open>One line of the exposition format\<close>

lemma two_orders:
  "a \<noteq> b \<Longrightarrow> distinct ls \<Longrightarrow> set ls = {a, b} \<Longrightarrow> ls = [a, b] \<or> ls = [b, a]"
proof -
  assume ab: "a \<noteq> b" and d: "distinct ls" and s: "set ls = {a, b}"
  then have "length ls = 2"
    using distinct_card [OF d] by simp
  then obtain x y where ls: "ls = [x, y]"
    by (cases ls; cases "tl ls") auto
  with s d ab show ?thesis
    by (auto simp: doubleton_eq_iff)
qed

lemma cpu_metric_mangled:
  "mangleMetric (cpu_metric t) cfg ks =
     Return (''cpu_percent'', [''core'' \<mapsto> ''0'', ''unit'' \<mapsto> ''percent''], ''42'', wrap64 (t * 1000))"
  unfolding mangleMetric_eq
  by (simp add: cpu_metric_def element_def static_segments_def IsDynamicElement_def
        sanitize_metric_def metric_char_def alnum_def in_range_def byte_def process_tags_empty
        Sprint_def Itoa_def digit_def)

lemma cpu_metric_core_unit:
  \<open>metric_line (cpu_metric t) cfg ks [''core'', ''unit''] =
     Return ''cpu_percent{core="0",unit="percent"} 42''\<close>
  by (simp add: metric_line_def cpu_metric_mangled prometheusString_def List.map_filter_def label_text_def)

lemma cpu_metric_unit_core:
  \<open>metric_line (cpu_metric t) cfg ks [''unit'', ''core''] =
     Return ''cpu_percent{unit="percent",core="0"} 42''\<close>
  by (simp add: metric_line_def cpu_metric_mangled prometheusString_def List.map_filter_def label_text_def)


text \<open>
  Claim C8, as amended. The metric \<^verbatim>\<open>/cpu/<core>/percent\<close> of the claim is
  transformed to the name \<^verbatim>\<open>cpu_percent\<close>, the labels \<open>core = 0\<close> and
  \<open>unit = percent\<close> and the value text \<^verbatim>\<open>42\<close>. Its line is
  \<^verbatim>\<open>cpu_percent{core="0",unit="percent"} 42\<close> when the loop of
  \<^verbatim>\<open>prometheusString\<close> visits the label \<^verbatim>\<open>core\<close> first, and
  \<^verbatim>\<open>cpu_percent{unit="percent",core="0"} 42\<close> when it visits \<^verbatim>\<open>unit\<close> first;
  every order of the two labels gives one of the two lines.
\<close>

theorem cpu_metric_line:
  \<open>mangleMetric (cpu_metric t) cfg ks =
     Return (''cpu_percent'', [''core'' \<mapsto> ''0'', ''unit'' \<mapsto> ''percent''], ''42'', wrap64 (t * 1000))
   \<and> metric_line (cpu_metric t) cfg ks [''core'', ''unit''] =
       Return ''cpu_percent{core="0",unit="percent"} 42''
   \<and> metric_line (cpu_metric t) cfg ks [''unit'', ''core''] =
       Return ''cpu_percent{unit="percent",core="0"} 42''
   \<and> (\<forall>ls. distinct ls \<and> set ls = {''core'', ''unit''} \<longrightarrow>
         metric_line (cpu_metric t) cfg ks ls \<in>
           {Return ''cpu_percent{core="0",unit="percent"} 42'',
            Return ''cpu_percent{unit="percent",core="0"} 42''})\<close>
proof -
  note m = cpu_metric_mangled [of t cfg ks]
  note l1 = cpu_metric_core_unit [of t cfg ks]
  note l2 = cpu_metric_unit_core [of t cfg ks]
  have \<open>\<forall>ls. distinct ls \<and> set ls = {''core'', ''unit''} \<longrightarrow>
         metric_line (cpu_metric t) cfg ks ls \<in>
           {Return ''cpu_percent{core="0",unit="percent"} 42'',
            Return ''cpu_percent{unit="percent",core="0"} 42''}\<close>
  proof (intro allI impI)
    fix ls :: "string list"
    assume "distinct ls \<and> set ls = {''core'', ''unit''}"
    then have "ls = [''core'', ''unit''] \<or> ls = [''unit'', ''core'']"
      using two_orders [of "''core''" "''unit''" ls] by simp
    with l1 l2 show \<open>metric_line (cpu_metric t) cfg ks ls \<in>
           {Return ''cpu_percent{core="0",unit="percent"} 42'',
            Return ''cpu_percent{unit="percent",core="0"} 42''}\<close>
      by auto
  qed
  with m l1 l2 show ?thesis by blast
qed



theorem cpu_metric_line_witness:
  \<open>distinct [''unit'', ''core''] \<and> set [''unit'', ''core''] = {''core'', ''unit''}
   \<and> metric_line (cpu_metric 0) Map.empty [] [''unit'', ''core''] \<in>
           {Return ''cpu_percent{core="0",unit="percent"} 42'',
            Return ''cpu_percent{unit="percent",core="0"} 42''}\<close>
proof -
  have h: "distinct [''unit'', ''core''] \<and> set [''unit'', ''core''] = {''core'', ''unit''}"
    by auto
  from cpu_metric_line [of 0 Map.empty "[]"]
  have \<open>\<forall>ls. distinct ls \<and> set ls = {''core'', ''unit''} \<longrightarrow>
         metric_line (cpu_metric 0) Map.empty [] ls \<in>
           {Return ''cpu_percent{core="0",unit="percent"} 42'',
            Return ''cpu_percent{unit="percent",core="0"} 42''}\<close>
    by (elim conjE)
  then have \<open>metric_line (cpu_metric 0) Map.empty [] [''unit'', ''core''] \<in>
           {Return ''cpu_percent{core="0",unit="percent"} 42'',
            Return ''cpu_percent{unit="percent",core="0"} 42''}\<close>
    using h by (elim allE impE)
  with h show ?thesis by (intro conjI) (elim conjE, assumption)+
qed

text \<open>
  The claim C8 as it was stated, that the metric is serialized to the line with
  \<^verbatim>\<open>core\<close> before \<^verbatim>\<open>unit\<close>, fails when the loop visits \<^verbatim>\<open>unit\<close> first.
\<close>

theorem cpu_metric_line_counterexample:
  \<open>metric_line (cpu_metric 0) Map.empty [] [''unit'', ''core''] =
     Return ''cpu_percent{unit="percent",core="0"} 42''
   \<and> metric_line (cpu_metric 0) Map.empty [] [''unit'', ''core''] \<noteq>
     Return ''cpu_percent{core="0",unit="percent"} 42''\<close>
  by (simp add: cpu_metric_unit_core)


subsection \<open>The URL and the pool\<close>

lemma prometheusUrl_shape:
  "prometheusUrl prs cfg = Return (u, err) \<Longrightarrow> (u = None \<and> err \<noteq> None) \<or> (u \<noteq> None \<and> err = None)"
  by (auto simp: prometheusUrl_def Let_def split: outcome.splits sum.splits if_splits)

lemma selectClient_nil_url:
  "prometheusUrl prs cfg = Return (None, err) \<Longrightarrow>
   selectClient prs cfg forceRefresh now w = Panic NilDereference"
  by (simp add: selectClient_def)

lemma selectClient_no_error:
  "selectClient prs cfg forceRefresh now w = Return ((client, err), w') \<Longrightarrow> err = None"
proof -
  assume r: "selectClient prs cfg forceRefresh now w = Return ((client, err), w')"
  show ?thesis
  proof (cases "prometheusUrl prs cfg")
    case (Panic p)
    with r show ?thesis by (simp add: selectClient_def)
  next
    case (Return ue)
    obtain u e where ue: "ue = (u, e)" by (cases ue)
    from prometheusUrl_shape [of prs cfg u e] Return ue
    have "(u = None \<and> e \<noteq> None) \<or> (u \<noteq> None \<and> e = None)" by simp
    with r Return ue show ?thesis
      by (auto simp: selectClient_def Let_def split: outcome.splits option.splits if_splits)
  qed
qed


lemma selectClient_returns:
  assumes "selectClient prs cfg forceRefresh now w = Return ((client, err), w')"
  shows "\<exists>key a c. prometheusUrl prs cfg = Return (Some key, None) \<and> client = Some a \<and> err = None
           \<and> clientPool w' key = Some a \<and> heap w' a = Some c \<and> LastUsed c = now"
proof (cases "prometheusUrl prs cfg")
  case (Panic p)
  with assms show ?thesis by (simp add: selectClient_def)
next
  case (Return ue)
  obtain u e where ue: "ue = (u, e)" by (cases ue)
  from prometheusUrl_shape [of prs cfg u e] Return ue
  have "(u = None \<and> e \<noteq> None) \<or> (u \<noteq> None \<and> e = None)" by simp
  with assms Return ue show ?thesis
    by (auto simp: selectClient_def Let_def split: outcome.splits option.splits if_splits)
qed

lemma selectClient_reuse:
  assumes "prometheusUrl prs cfg = Return (Some key, None)"
    and "clientPool w key = Some a" and "heap w a = Some c"
  shows "selectClient prs cfg False now w =
           Return ((Some a, None), w\<lparr>heap := (heap w)(a \<mapsto> c\<lparr>LastUsed := now\<rparr>)\<rparr>)"
  using assms by (simp add: selectClient_def Let_def)

lemma selectClient_create:
  assumes "prometheusUrl prs cfg = Return (Some key, None)"
    and "assertInt cfg ''timeout_secs'' = Return t"
    and "clientPool w key = None \<or> forceRefresh"
  shows "selectClient prs cfg forceRefresh now w =
           Return ((Some (next_addr w), None),
             w\<lparr>clientPool := (clientPool w)(key \<mapsto> next_addr w),
               heap := (heap w)(next_addr w \<mapsto>
                 \<lparr>Key = key, Conn = \<lparr>Timeout = wrap64 (time_Second * t)\<rparr>, LastUsed = now\<rparr>),
               next_addr := next_addr w + 1\<rparr>)"
  using assms by (auto simp: selectClient_def Let_def)

lemma pool_ok_fresh:
  "pool_ok w \<Longrightarrow> heap w (next_addr w) = None \<and> (\<forall>k. clientPool w k \<noteq> Some (next_addr w))"
  unfolding pool_ok_def by (metis less_irrefl)

lemma wrap64_id: "- (2 ^ 63) \<le> x \<Longrightarrow> x < 2 ^ 63 \<Longrightarrow> wrap64 x = x"
  by (simp add: wrap64_def)

lemma seconds_fit:
  "- 9223372036 \<le> t \<Longrightarrow> t \<le> 9223372036 \<Longrightarrow> wrap64 (time_Second * t) = t * 1000000000"
  by (simp add: wrap64_id time_Second_def mult.commute)

lemma gateway_url:
  "prometheusUrl escape_parser (gateway_config ''batch1'' r t) =
     Return (Some ''http://gw:9091/metrics/job/batch1'', None)"
  by (simp add: prometheusUrl_def gateway_config_def assertBool_def assertStr_def assertInt_def
        url_text_def Itoa_def digit_def escape_parser_def)

lemma gateway_bad_url:
  "prometheusUrl escape_parser (gateway_config ''%zz'' r t) =
     Return (None, Some ''invalid URL escape'')"
  by (simp add: prometheusUrl_def gateway_config_def assertBool_def assertStr_def assertInt_def
        url_text_def Itoa_def digit_def escape_parser_def hex_digit_def in_range_def byte_def)

lemma gateway_timeout:
  "assertInt (gateway_config job r t) ''timeout_secs'' = Return t"
  by (simp add: gateway_config_def assertInt_def)

lemma gateway_parse: "parse (gateway_env outcomes) = escape_parser"
  by (simp add: gateway_env_def)

lemma gateway_decodes:
  "decode (gateway_env outcomes) ''snap.gob'' content = Inr [cpu_metric 0]"
  by (simp add: decode_def gateway_env_def SnapGOBContentType_def)

text \<open>
  Claim C10. \<^verbatim>\<open>selectClient\<close> calls \<^verbatim>\<open>promUrl.String()\<close> before it looks at the
  error of \<^verbatim>\<open>prometheusUrl\<close>. For a configuration whose URL text the parser refuses,
  \<^verbatim>\<open>prometheusUrl\<close> gives a nil URL with the error and \<^verbatim>\<open>selectClient\<close> panics
  with a nil dereference, whatever the pool holds; and whenever \<^verbatim>\<open>selectClient\<close>
  returns, the URL was built and the error it returns is nil, so the branch that returns
  the error is never taken.
\<close>

theorem selectClient_nil_dereference:
  "(assertBool cfg ''https'' = Return https \<and> assertStr cfg ''instance'' = Return inst
      \<and> assertStr cfg ''host'' = Return host \<and> assertInt cfg ''port'' = Return port
      \<and> assertStr cfg ''job'' = Return job
      \<and> prs (url_text (if https then ''https'' else ''http'') host port job inst) = Inl e \<longrightarrow>
      prometheusUrl prs cfg = Return (None, Some e)
      \<and> selectClient prs cfg forceRefresh now w = Panic NilDereference)
   \<and> (prometheusUrl prs cfg = Return (u, Some e) \<longrightarrow>
        selectClient prs cfg forceRefresh now w = Panic NilDereference)
   \<and> (selectClient prs cfg forceRefresh now w = Return ((client, err), w') \<longrightarrow>
        err = None \<and> (\<exists>key. prometheusUrl prs cfg = Return (Some key, None)))"
proof (intro conjI impI)
  assume h: "assertBool cfg ''https'' = Return https \<and> assertStr cfg ''instance'' = Return inst
      \<and> assertStr cfg ''host'' = Return host \<and> assertInt cfg ''port'' = Return port
      \<and> assertStr cfg ''job'' = Return job
      \<and> prs (url_text (if https then ''https'' else ''http'') host port job inst) = Inl e"
  then show u: "prometheusUrl prs cfg = Return (None, Some e)"
    by (simp add: prometheusUrl_def)
  then show "selectClient prs cfg forceRefresh now w = Panic NilDereference"
    by (rule selectClient_nil_url)
next
  assume h: "prometheusUrl prs cfg = Return (u, Some e)"
  from prometheusUrl_shape [OF h] have "u = None" by simp
  with h show "selectClient prs cfg forceRefresh now w = Panic NilDereference"
    by (simp add: selectClient_nil_url)
next
  assume r: "selectClient prs cfg forceRefresh now w = Return ((client, err), w')"
  from selectClient_returns [OF r] show "err = None" by blast
  from selectClient_returns [OF r] show "\<exists>key. prometheusUrl prs cfg = Return (Some key, None)" by blast
qed

theorem selectClient_nil_dereference_witness:
  "prometheusUrl escape_parser (gateway_config ''%zz'' 3 10) = Return (None, Some ''invalid URL escape'')
   \<and> selectClient escape_parser (gateway_config ''%zz'' 3 10) True 5 no_connections = Panic NilDereference"
proof -
  let ?cfg = "gateway_config ''%zz'' 3 10"
  have h: "assertBool ?cfg ''https'' = Return False \<and> assertStr ?cfg ''instance'' = Return []
      \<and> assertStr ?cfg ''host'' = Return ''gw'' \<and> assertInt ?cfg ''port'' = Return 9091
      \<and> assertStr ?cfg ''job'' = Return ''%zz''
      \<and> escape_parser (url_text (if False then ''https'' else ''http'') ''gw'' 9091 ''%zz'' []) =
          Inl ''invalid URL escape''"
    by (simp add: gateway_config_def assertBool_def assertStr_def assertInt_def
        url_text_def Itoa_def digit_def escape_parser_def hex_digit_def in_range_def byte_def)
  have "assertBool ?cfg ''https'' = Return False \<and> assertStr ?cfg ''instance'' = Return []
      \<and> assertStr ?cfg ''host'' = Return ''gw'' \<and> assertInt ?cfg ''port'' = Return 9091
      \<and> assertStr ?cfg ''job'' = Return ''%zz''
      \<and> escape_parser (url_text (if False then ''https'' else ''http'') ''gw'' 9091 ''%zz'' []) =
          Inl ''invalid URL escape'' \<longrightarrow>
      prometheusUrl escape_parser ?cfg = Return (None, Some ''invalid URL escape'')
      \<and> selectClient escape_parser ?cfg True 5 no_connections = Panic NilDereference"
    by (rule conjunct1 [OF selectClient_nil_dereference
          [where cfg = "?cfg" and https = False and inst = "[]" and host = "''gw''" and port = 9091
             and job = "''%zz''" and prs = escape_parser and e = "''invalid URL escape''"
             and forceRefresh = True and now = 5 and w = no_connections and u = None
             and client = None and err = None and w' = no_connections]])
  from this h show ?thesis by (rule mp)
qed

text \<open>
  Claim C5, as amended. Whenever a call of \<^verbatim>\<open>selectClient\<close> returns, it returns a
  connection of the pool whose last use is the time of the call, and a following call
  with the same configuration and without \<^verbatim>\<open>forceRefresh\<close> returns the same
  connection and changes nothing but its last use, which becomes the time of the second
  call. When the URL is built, \<^verbatim>\<open>timeout_secs\<close> is an integer \<open>t\<close>, and the pool has no
  entry for the URL or \<^verbatim>\<open>forceRefresh\<close> is set, the call allocates a connection, at
  an address that the pool and the store do not use, with the URL as key, the time of the
  call as last use and a client whose timeout is \<open>t\<close> seconds as a 64-bit number of
  nanoseconds, which is \<open>t\<close> seconds exactly when \<open>t\<close> is at most 9223372036 in absolute
  value; it stores the connection under the key, in place of any entry there, and
  returns it.
\<close>

theorem selectClient_pool:
  "(selectClient prs cfg forceRefresh t_first w = Return ((client, err), w_first) \<longrightarrow>
      (\<exists>a c. client = Some a \<and> heap w_first a = Some c \<and> LastUsed c = t_first
         \<and> selectClient prs cfg False t_second w_first =
             Return ((Some a, None), w_first\<lparr>heap := (heap w_first)(a \<mapsto> c\<lparr>LastUsed := t_second\<rparr>)\<rparr>)))
   \<and> (prometheusUrl prs cfg = Return (Some key, None) \<and> assertInt cfg ''timeout_secs'' = Return t
        \<and> (clientPool w key = None \<or> forceRefresh) \<longrightarrow>
        selectClient prs cfg forceRefresh t_first w =
           Return ((Some (next_addr w), None),
             w\<lparr>clientPool := (clientPool w)(key \<mapsto> next_addr w),
               heap := (heap w)(next_addr w \<mapsto>
                 \<lparr>Key = key, Conn = \<lparr>Timeout = wrap64 (time_Second * t)\<rparr>, LastUsed = t_first\<rparr>),
               next_addr := next_addr w + 1\<rparr>)
        \<and> (pool_ok w \<longrightarrow> heap w (next_addr w) = None \<and> (\<forall>k. clientPool w k \<noteq> Some (next_addr w)))
        \<and> (- 9223372036 \<le> t \<and> t \<le> 9223372036 \<longrightarrow> wrap64 (time_Second * t) = t * 1000000000))"
proof (intro conjI impI)
  assume r: "selectClient prs cfg forceRefresh t_first w = Return ((client, err), w_first)"
  from selectClient_returns [OF r] obtain key a c where
    u: "prometheusUrl prs cfg = Return (Some key, None)" and a: "client = Some a"
    and p: "clientPool w_first key = Some a" and h: "heap w_first a = Some c" and l: "LastUsed c = t_first"
    by blast
  from selectClient_reuse [OF u p h, of t_second] a h l
  show "\<exists>a c. client = Some a \<and> heap w_first a = Some c \<and> LastUsed c = t_first
         \<and> selectClient prs cfg False t_second w_first =
             Return ((Some a, None), w_first\<lparr>heap := (heap w_first)(a \<mapsto> c\<lparr>LastUsed := t_second\<rparr>)\<rparr>)"
    by blast
next
  assume h: "prometheusUrl prs cfg = Return (Some key, None) \<and> assertInt cfg ''timeout_secs'' = Return t
        \<and> (clientPool w key = None \<or> forceRefresh)"
  then show "selectClient prs cfg forceRefresh t_first w =
           Return ((Some (next_addr w), None),
             w\<lparr>clientPool := (clientPool w)(key \<mapsto> next_addr w),
               heap := (heap w)(next_addr w \<mapsto>
                 \<lparr>Key = key, Conn = \<lparr>Timeout = wrap64 (time_Second * t)\<rparr>, LastUsed = t_first\<rparr>),
               next_addr := next_addr w + 1\<rparr>)"
    by (intro selectClient_create) simp_all
next
  assume "pool_ok w"
  then show "heap w (next_addr w) = None" by (simp add: pool_ok_fresh)
next
  assume "pool_ok w"
  then show "\<forall>k. clientPool w k \<noteq> Some (next_addr w)" by (simp add: pool_ok_fresh)
next
  assume "- 9223372036 \<le> t \<and> t \<le> 9223372036"
  then show "wrap64 (time_Second * t) = t * 1000000000" by (simp add: seconds_fit)
qed


theorem selectClient_pool_witness:
  "\<exists>w_first w2. selectClient escape_parser (gateway_config ''batch1'' 3 10) False 7 no_connections =
             Return ((Some 0, None), w_first)
     \<and> selectClient escape_parser (gateway_config ''batch1'' 3 10) False 9 w_first = Return ((Some 0, None), w2)
     \<and> map_option LastUsed (heap w_first 0) = Some 7
     \<and> map_option LastUsed (heap w2 0) = Some 9
     \<and> map_option (\<lambda>c. Timeout (Conn c)) (heap w2 0) = Some 10000000000
     \<and> clientPool w2 ''http://gw:9091/metrics/job/batch1'' = Some 0"
proof -
  let ?cfg = "gateway_config ''batch1'' 3 10"
  let ?key = "''http://gw:9091/metrics/job/batch1''"
  let ?c = "\<lparr>Key = ?key, Conn = \<lparr>Timeout = wrap64 (time_Second * 10)\<rparr>, LastUsed = 7\<rparr>"
  let ?w1 = "no_connections\<lparr>clientPool := (clientPool no_connections)(?key \<mapsto> next_addr no_connections),
               heap := (heap no_connections)(next_addr no_connections \<mapsto> ?c),
               next_addr := next_addr no_connections + 1\<rparr>"
  note both = selectClient_pool [where prs = escape_parser and cfg = "?cfg" and forceRefresh = False
      and t_first = 7 and t_second = 9 and w = no_connections and key = "?key" and t = 10
      and client = "Some 0" and err = None and w_first = "?w1"]
  have h: "prometheusUrl escape_parser ?cfg = Return (Some ?key, None)
        \<and> assertInt ?cfg ''timeout_secs'' = Return 10
        \<and> (clientPool no_connections ?key = None \<or> False)"
    by (simp add: gateway_url gateway_timeout no_connections_def)
  from conjunct2 [OF both] h
  have first: "selectClient escape_parser ?cfg False 7 no_connections = Return ((Some (next_addr no_connections), None), ?w1)"
    and secs: "- 9223372036 \<le> (10::int) \<and> (10::int) \<le> 9223372036 \<longrightarrow> wrap64 (time_Second * 10) = 10 * 1000000000"
    by blast+
  have n0: "next_addr no_connections = 0" by (simp add: no_connections_def)
  from first n0 have first': "selectClient escape_parser ?cfg False 7 no_connections = Return ((Some 0, None), ?w1)"
    by simp
  from conjunct1 [OF both] first'
  obtain a c where a: "Some (0::nat) = Some a" and c: "heap ?w1 a = Some c"
    and second: "selectClient escape_parser ?cfg False 9 ?w1 =
        Return ((Some a, None), ?w1\<lparr>heap := (heap ?w1)(a \<mapsto> c\<lparr>LastUsed := 9\<rparr>)\<rparr>)"
    by blast
  from a have a0: "a = 0" by simp
  from c a0 n0 have c': "c = ?c" by simp
  from secs have t: "wrap64 (time_Second * 10) = 10000000000" by simp
  show ?thesis
    apply (rule exI [of _ ?w1])
    apply (rule exI [of _ "?w1\<lparr>heap := (heap ?w1)(a \<mapsto> c\<lparr>LastUsed := 9\<rparr>)\<rparr>"])
    using first' second a0 c' n0 t
    apply simp
    done
qed

text \<open>
  The claim C5 as it was stated, for every configuration, fails for a configuration whose
  URL is refused, with which \<^verbatim>\<open>selectClient\<close> returns no connection at all, and for
  a timeout of 9223372037 seconds, for which the client gets a negative timeout.
\<close>

theorem selectClient_pool_counterexample:
  "selectClient escape_parser (gateway_config ''%zz'' 3 10) False 7 no_connections = Panic NilDereference
   \<and> (case selectClient escape_parser (gateway_config ''batch1'' 3 9223372037) False 7 no_connections of
        Return ((client, err), w) \<Rightarrow>
          client = Some 0 \<and> map_option (\<lambda>c. Timeout (Conn c)) (heap w 0) = Some (- 9223372036709551616)
      | Panic p \<Rightarrow> False)"
proof -
  have "selectClient escape_parser (gateway_config ''%zz'' 3 10) False 7 no_connections = Panic NilDereference"
    using gateway_bad_url [of 3 10] by (rule selectClient_nil_url)
  moreover have "selectClient escape_parser (gateway_config ''batch1'' 3 9223372037) False 7 no_connections =
      Return ((Some 0, None),
        no_connections\<lparr>clientPool := (clientPool no_connections)(''http://gw:9091/metrics/job/batch1'' \<mapsto> 0),
          heap := (heap no_connections)(0 \<mapsto>
            \<lparr>Key = ''http://gw:9091/metrics/job/batch1'',
             Conn = \<lparr>Timeout = wrap64 (time_Second * 9223372037)\<rparr>, LastUsed = 7\<rparr>),
          next_addr := 0 + 1\<rparr>)"
    using selectClient_create [OF gateway_url gateway_timeout, of no_connections False 3 9223372037 7]
    by (simp add: no_connections_def)
  moreover have "wrap64 (time_Second * 9223372037) = - 9223372036709551616"
    by (simp add: wrap64_def time_Second_def)
  ultimately show ?thesis by simp
qed

text \<open>
  Claim C3, as amended. When the batch is decoded and the URL cannot be built,
  \<^verbatim>\<open>Publish\<close> panics with the error of the parser: it returns nothing to its caller,
  makes no attempt and leaves the pool as it was.
\<close>

theorem Publish_invalid_url:
  "(decode env contentType content = Inr metrics \<and> prometheusUrl (parse env) cfg = Return (u, Some e) \<longrightarrow>
      Publish env contentType content cfg w = (Panic (Raised e), w, []))
   \<and> (decode env contentType content = Inr metrics
        \<and> assertBool cfg ''https'' = Return https \<and> assertStr cfg ''instance'' = Return inst
        \<and> assertStr cfg ''host'' = Return host \<and> assertInt cfg ''port'' = Return port
        \<and> assertStr cfg ''job'' = Return job
        \<and> parse env (url_text (if https then ''https'' else ''http'') host port job inst) = Inl e \<longrightarrow>
      Publish env contentType content cfg w = (Panic (Raised e), w, []))"
  by (simp add: Publish_def prometheusUrl_def)

theorem Publish_invalid_url_witness:
  "decode (gateway_env (\<lambda>n. None)) ''snap.gob'' [] = Inr [cpu_metric 0]
   \<and> prometheusUrl (parse (gateway_env (\<lambda>n. None))) (gateway_config ''%zz'' 3 10) =
       Return (None, Some ''invalid URL escape'')
   \<and> Publish (gateway_env (\<lambda>n. None)) ''snap.gob'' [] (gateway_config ''%zz'' 3 10) no_connections =
       (Panic (Raised ''invalid URL escape''), no_connections, [])"
proof -
  let ?env = "gateway_env (\<lambda>n. None)"
  let ?cfg = "gateway_config ''%zz'' 3 10"
  have d: "decode ?env ''snap.gob'' [] = Inr [cpu_metric 0]"
    by (rule gateway_decodes)
  have u: "prometheusUrl (parse ?env) ?cfg = Return (None, Some ''invalid URL escape'')"
    by (simp add: gateway_parse gateway_bad_url)
  have "decode ?env ''snap.gob'' [] = Inr [cpu_metric 0]
      \<and> prometheusUrl (parse ?env) ?cfg = Return (None, Some ''invalid URL escape'') \<longrightarrow>
      Publish ?env ''snap.gob'' [] ?cfg no_connections =
        (Panic (Raised ''invalid URL escape''), no_connections, [])"
    by (rule conjunct1 [OF Publish_invalid_url [where env = "?env" and contentType = "''snap.gob''"
          and content = "[]" and metrics = "[cpu_metric 0]" and cfg = "?cfg" and u = None
          and e = "''invalid URL escape''" and w = no_connections]])
  with d u show ?thesis by simp
qed

text \<open>
  The claim C3 as it was stated, that the call returns an error to its caller without
  aborting, fails for a job with a malformed percent escape: the call panics.
\<close>

theorem Publish_invalid_url_counterexample:
  "fst (Publish (gateway_env (\<lambda>n. None)) ''snap.gob'' [] (gateway_config ''%zz'' 3 10) no_connections) =
       Panic (Raised ''invalid URL escape'')
   \<and> fst (Publish (gateway_env (\<lambda>n. None)) ''snap.gob'' [] (gateway_config ''%zz'' 3 10) no_connections) \<noteq>
       Return (Some ''invalid URL escape'')"
  by (simp add: Publish_def gateway_decodes gateway_parse gateway_bad_url)



subsection \<open>The scan of the pool\<close>













subsection \<open>The attempts of a call\<close>

lemma from_end: "nat retries \<le> r \<Longrightarrow> failing_from env retries r = [] \<and> made_from env retries r = 0"
  by (simp add: failing_from_def made_from_def)

lemma from_success:
  "r < nat retries \<Longrightarrow> transport env r = None \<Longrightarrow>
   failing_from env retries r = [] \<and> made_from env retries r = 1"
  by (simp add: failing_from_def made_from_def upt_conv_Cons [of r])

lemma from_failure:
  assumes "r < nat retries" and "transport env r \<noteq> None"
  shows "failing_from env retries r = r # failing_from env retries (Suc r)
   \<and> made_from env retries r = made_from env retries (Suc r) + 1"
proof -
  have f: "failing_from env retries r = r # failing_from env retries (Suc r)"
    using assms by (simp add: failing_from_def upt_conv_Cons [of r])
  then have "made_from env retries r = made_from env retries (Suc r) + 1"
    by (simp add: made_from_def)
  with f show ?thesis by simp
qed

lemma made_le: "r \<le> nat retries \<Longrightarrow> r + made_from env retries r \<le> nat retries"
proof -
  assume r: "r \<le> nat retries"
  have "length (failing_from env retries r) \<le> length [r..<nat retries]"
    unfolding failing_from_def by (rule length_takeWhile_le)
  then have "length (failing_from env retries r) \<le> nat retries - r" by simp
  with r show ?thesis unfolding made_from_def by (auto split: if_splits)
qed

lemma write_metrics_returns: "\<exists>buf. write_metrics cfg ord i ms = Return buf"
proof (induction ms arbitrary: i)
  case Nil
  show ?case by simp
next
  case (Cons m ms)
  from Cons [of "i + 1"] obtain rest where "write_metrics cfg ord (i + 1) ms = Return rest" ..
  then show ?case
    by (simp add: metric_line_def mangleMetric_eq)
qed

lemma sendMetrics_runs:
  assumes "parse env url = Inr url'" and "assertBool cfg ''replace'' = Return repl"
    and "heap w a = Some c"
  shows "\<exists>req. sendMetrics env cfg (Some url) (Some a) metrics n w = Return (transport env n, [Send (int n) req])"
proof -
  obtain buf where "write_metrics cfg (orders env n) 0 metrics = Return buf"
    using write_metrics_returns by blast
  with assms show ?thesis
    by (simp add: sendMetrics_def Let_def)
qed

lemma selectClient_runs:
  assumes u: "prometheusUrl prs cfg = Return (Some key, None)"
    and t: "assertInt cfg ''timeout_secs'' = Return t"
    and nd: "no_dangling w"
  shows "\<exists>a c w1. selectClient prs cfg forceRefresh now w = Return ((Some a, None), w1)
           \<and> heap w1 a = Some c \<and> no_dangling w1"
proof (cases "clientPool w key = None \<or> forceRefresh")
  case True
  let ?w1 = "w\<lparr>clientPool := (clientPool w)(key \<mapsto> next_addr w),
               heap := (heap w)(next_addr w \<mapsto>
                 \<lparr>Key = key, Conn = \<lparr>Timeout = wrap64 (time_Second * t)\<rparr>, LastUsed = now\<rparr>),
               next_addr := next_addr w + 1\<rparr>"
  have "selectClient prs cfg forceRefresh now w = Return ((Some (next_addr w), None), ?w1)"
    using u t True by (rule selectClient_create)
  moreover have "no_dangling ?w1"
    using nd by (auto simp: no_dangling_def)
  moreover have "heap ?w1 (next_addr w) =
      Some \<lparr>Key = key, Conn = \<lparr>Timeout = wrap64 (time_Second * t)\<rparr>, LastUsed = now\<rparr>"
    by simp
  ultimately show ?thesis by blast
next
  case False
  then obtain a where a: "clientPool w key = Some a" and f: "forceRefresh = False" by auto
  with nd obtain c where c: "heap w a = Some c" by (auto simp: no_dangling_def)
  let ?w1 = "w\<lparr>heap := (heap w)(a \<mapsto> c\<lparr>LastUsed := now\<rparr>)\<rparr>"
  have "selectClient prs cfg False now w = Return ((Some a, None), ?w1)"
    using u a c by (rule selectClient_reuse)
  moreover have "no_dangling ?w1"
    using nd by (auto simp: no_dangling_def)
  moreover have "heap ?w1 a = Some (c\<lparr>LastUsed := now\<rparr>)"
    by simp
  ultimately show ?thesis using f by blast
qed


lemma retry_loop_runs:
  assumes u: "prometheusUrl (parse env) cfg = Return (Some url, None)"
    and p: "parse env url = Inr url'"
    and t: "assertInt cfg ''timeout_secs'' = Return t"
    and rp: "assertBool cfg ''replace'' = Return repl"
  shows "0 \<le> retry \<Longrightarrow> no_dangling w \<Longrightarrow>
    \<exists>w' tr. retry_loop env cfg (Some url) metrics retries retry b w = (None, w', tr)
      \<and> attempts tr = map (\<lambda>n. (int n, 0 < n)) [nat retry..<nat retry + made_from env retries (nat retry)]
      \<and> slept tr = map int (filter (\<lambda>n. n + 1 < nat retries) (failing_from env retries (nat retry)))"
proof (induction "nat (retries - retry)" arbitrary: retry b w)
  case 0
  then have ge: "\<not> retry < retries" by simp
  with 0 have "nat retries \<le> nat retry" by simp
  from from_end [OF this, of env]
  have "failing_from env retries (nat retry) = []" "made_from env retries (nat retry) = 0" by simp_all
  moreover from ge have "retry_loop env cfg (Some url) metrics retries retry b w = (None, w, [])"
    by (subst retry_loop.simps) simp
  ultimately show ?case by simp
next
  case (Suc k)
  then have lt: "retry < retries" and r0: "0 \<le> retry" by simp_all
  then have ltn: "nat retry < nat retries" by simp
  have next_nat: "nat (retry + 1) = Suc (nat retry)" using r0 by simp
  from selectClient_runs [OF u t Suc.prems(2), of "retry > 0" "clock env (nat retry)"]
  obtain a c w1 where
    sel: "selectClient (parse env) cfg (retry > 0) (clock env (nat retry)) w = Return ((Some a, None), w1)"
    and h: "heap w1 a = Some c" and nd: "no_dangling w1" by blast
  from sendMetrics_runs [OF p rp h, of metrics "nat retry"]
  obtain req where
    snd: "sendMetrics env cfg (Some url) (Some a) metrics (nat retry) w1 =
            Return (transport env (nat retry), [Send (int (nat retry)) req])" by blast
  have k: "k = nat (retries - (retry + 1))" using Suc.hyps(2) by simp
  have r1: "0 \<le> retry + 1" using r0 by simp
  show ?case
  proof (cases "transport env (nat retry)")
    case None
    from from_success [OF ltn None]
    have f: "failing_from env retries (nat retry) = []" "made_from env retries (nat retry) = 1" by simp_all
    have "retry_loop env cfg (Some url) metrics retries retry b w =
        (None, w1, [SelectClient retry (retry > 0), Send (int (nat retry)) req])"
      using lt sel snd None by (subst retry_loop.simps) (simp add: and_then_def Let_def)
    with f r0 show ?thesis by simp
  next
    case (Some e)
    then have ne: "transport env (nat retry) \<noteq> None" by simp
    from from_failure [OF ltn ne]
    have f: "failing_from env retries (nat retry) = nat retry # failing_from env retries (Suc (nat retry))"
      "made_from env retries (nat retry) = made_from env retries (Suc (nat retry)) + 1" by simp_all
    show ?thesis
    proof (cases "retry + 1 < retries")
      case True
      from Suc.hyps(1) [OF k r1 nd, of "b + 1"] obtain w' tr where
        rec: "retry_loop env cfg (Some url) metrics retries (retry + 1) (b + 1) w1 = (None, w', tr)"
        and at: "attempts tr = map (\<lambda>n. (int n, 0 < n))
                   [nat (retry + 1)..<nat (retry + 1) + made_from env retries (nat (retry + 1))]"
        and sl: "slept tr = map int (filter (\<lambda>n. n + 1 < nat retries) (failing_from env retries (nat (retry + 1))))"
        by blast
      have "retry_loop env cfg (Some url) metrics retries retry b w =
          (None, w', [SelectClient retry (retry > 0), Send (int (nat retry)) req, Sleep retry (backoff env b)] @ tr)"
        using lt sel snd Some True rec by (subst retry_loop.simps) (simp add: and_then_def Let_def)
      moreover have "nat retry + 1 < nat retries" using True r0 by simp
      ultimately show ?thesis
        using f at sl r0 next_nat by (simp add: upt_conv_Cons [of "nat retry"])
    next
      case False
      from Suc.hyps(1) [OF k r1 nd, of b] obtain w' tr where
        rec: "retry_loop env cfg (Some url) metrics retries (retry + 1) b w1 = (None, w', tr)"
        and at: "attempts tr = map (\<lambda>n. (int n, 0 < n))
                   [nat (retry + 1)..<nat (retry + 1) + made_from env retries (nat (retry + 1))]"
        and sl: "slept tr = map int (filter (\<lambda>n. n + 1 < nat retries) (failing_from env retries (nat (retry + 1))))"
        by blast
      have "retry_loop env cfg (Some url) metrics retries retry b w =
          (None, w', [SelectClient retry (retry > 0), Send (int (nat retry)) req] @ tr)"
        using lt sel snd Some False rec by (subst retry_loop.simps) (simp add: and_then_def Let_def)
      moreover have "\<not> nat retry + 1 < nat retries" using False r0 by simp
      ultimately show ?thesis
        using f at sl r0 next_nat by (simp add: upt_conv_Cons [of "nat retry"])
    qed
  qed
qed


lemma Publish_runs:
  assumes d: "decode env contentType content = Inr metrics" and r: "ready env cfg w url retries"
  shows "\<exists>w' tr. Publish env contentType content cfg w = (Return None, w', tr)
      \<and> attempts tr = map (\<lambda>n. (int n, 0 < n)) [0..<made_from env retries 0]
      \<and> slept tr = map int (filter (\<lambda>n. n + 1 < nat retries) (failing_from env retries 0))"
proof -
  from r have u: "prometheusUrl (parse env) cfg = Return (Some url, None)"
    and rt: "assertInt cfg ''retries'' = Return retries" and ok: "pool_ok w"
    by (simp_all add: ready_def)
  from r obtain url' where p: "parse env url = Inr url'"
    by (cases "parse env url") (simp_all add: ready_def)
  from r obtain t where t: "assertInt cfg ''timeout_secs'' = Return t"
    by (cases "assertInt cfg ''timeout_secs''") (simp_all add: ready_def returns_def)
  from r obtain repl where rp: "assertBool cfg ''replace'' = Return repl"
    by (cases "assertBool cfg ''replace''") (simp_all add: ready_def returns_def)
  from ok have nd: "no_dangling w" by (simp add: pool_ok_def no_dangling_def)
  from retry_loop_runs [OF u p t rp _ nd, of 0 metrics retries 0]
  obtain w' tr where l: "retry_loop env cfg (Some url) metrics retries 0 0 w = (None, w', tr)"
    and at: "attempts tr = map (\<lambda>n. (int n, 0 < n)) [0..<made_from env retries 0]"
    and sl: "slept tr = map int (filter (\<lambda>n. n + 1 < nat retries) (failing_from env retries 0))"
    by auto
  from d u rt l have "Publish env contentType content cfg w = (Return None, w', tr)"
    by (simp add: Publish_def)
  with at sl show ?thesis by blast
qed

lemma Publish_returns_nil:
  "decode env contentType content = Inr metrics \<Longrightarrow>
   Publish env contentType content cfg w = (Return r, w', tr) \<Longrightarrow> r = None"
  by (auto simp: Publish_def split: outcome.splits option.splits prod.splits)

lemma first_success:
  assumes "n < nat retries" and "transport env n = None" and "\<forall>i<n. transport env i \<noteq> None"
  shows "failing_from env retries 0 = [0..<n] \<and> made_from env retries 0 = n + 1"
proof -
  have "[0..<nat retries] = [0..<n] @ [n..<n + (nat retries - n)]"
    using assms(1) upt_add_eq_append [of 0 n "nat retries - n"] by simp
  also have "\<dots> = [0..<n] @ n # [Suc n..<nat retries]"
    using assms(1) by (simp add: upt_conv_Cons [of n])
  finally have split: "[0..<nat retries] = [0..<n] @ n # [Suc n..<nat retries]" .
  have "takeWhile (\<lambda>n. transport env n \<noteq> None) ([0..<n] @ n # [Suc n..<nat retries]) =
      [0..<n] @ takeWhile (\<lambda>n. transport env n \<noteq> None) (n # [Suc n..<nat retries])"
    using assms(3) by (intro takeWhile_append2) simp
  with assms(2) split have "failing_from env retries 0 = [0..<n]"
    by (simp add: failing_from_def)
  with assms(1) show ?thesis by (simp add: made_from_def)
qed

lemma all_fail:
  assumes "\<forall>i<nat retries. transport env i \<noteq> None"
  shows "failing_from env retries 0 = [0..<nat retries] \<and> made_from env retries 0 = nat retries"
proof -
  from assms have "failing_from env retries 0 = [0..<nat retries]"
    by (simp add: failing_from_def)
  then show ?thesis by (simp add: made_from_def)
qed

lemma sendMetrics_result:
  "sendMetrics env cfg promUrl client metrics n w = Return (e, sent) \<Longrightarrow>
   e = transport env n \<and> (\<exists>req. sent = [Send (int n) req])"
  by (auto simp: sendMetrics_def Let_def split: outcome.splits option.splits sum.splits)

lemma retry_loop_step:
  assumes lt: "retry < retries"
    and l: "retry_loop env cfg promUrl metrics retries retry b w = (p, w', tr)"
  shows "(p \<noteq> None \<and> tr = [SelectClient retry (0 < retry)])
    \<or> (\<exists>req. p = None \<and> transport env (nat retry) = None
          \<and> tr = [SelectClient retry (0 < retry), Send (int (nat retry)) req])
    \<or> (\<exists>req w1 t'. transport env (nat retry) \<noteq> None \<and> retry + 1 < retries
          \<and> retry_loop env cfg promUrl metrics retries (retry + 1) (b + 1) w1 = (p, w', t')
          \<and> tr = [SelectClient retry (0 < retry), Send (int (nat retry)) req, Sleep retry (backoff env b)] @ t')
    \<or> (\<exists>req. transport env (nat retry) \<noteq> None \<and> \<not> retry + 1 < retries \<and> p = None
          \<and> tr = [SelectClient retry (0 < retry), Send (int (nat retry)) req])"
proof (cases "selectClient (parse env) cfg (0 < retry) (clock env (nat retry)) w")
  case (Panic p0)
  with lt l have "p = Some p0 \<and> tr = [SelectClient retry (0 < retry)]"
    by (subst (asm) retry_loop.simps) (simp add: Let_def)
  then show ?thesis by simp
next
  case (Return x)
  obtain client err w1 where x: "x = ((client, err), w1)" by (cases x) auto
  from Return x have sel: "selectClient (parse env) cfg (0 < retry) (clock env (nat retry)) w =
      Return ((client, err), w1)" by simp
  from selectClient_no_error [OF sel] have err: "err = None" .
  show ?thesis
  proof (cases "sendMetrics env cfg promUrl client metrics (nat retry) w1")
    case (Panic p1)
    with lt l sel err have "p = Some p1 \<and> tr = [SelectClient retry (0 < retry)]"
      by (subst (asm) retry_loop.simps) (simp add: Let_def and_then_def)
    then show ?thesis by simp
  next
    case (Return y)
    obtain e sent where y: "y = (e, sent)" by (cases y)
    from Return y have snd: "sendMetrics env cfg promUrl client metrics (nat retry) w1 = Return (e, sent)"
      by simp
    from sendMetrics_result [OF snd] obtain req where
      e: "e = transport env (nat retry)" and sent: "sent = [Send (int (nat retry)) req]" by blast
    show ?thesis
    proof (cases "transport env (nat retry)")
      case None
      with lt l sel err snd e sent
      have "p = None \<and> tr = [SelectClient retry (0 < retry), Send (int (nat retry)) req]"
        by (subst (asm) retry_loop.simps) (simp add: Let_def and_then_def)
      with None show ?thesis by blast
    next
      case (Some msg)
      show ?thesis
      proof (cases "retry + 1 < retries")
        case True
        obtain p2 w2 t2 where rec: "retry_loop env cfg promUrl metrics retries (retry + 1) (b + 1) w1 = (p2, w2, t2)"
          by (cases "retry_loop env cfg promUrl metrics retries (retry + 1) (b + 1) w1") auto
        with lt l sel err snd e sent Some True
        have "p = p2 \<and> w' = w2 \<and> tr = [SelectClient retry (0 < retry), Send (int (nat retry)) req,
            Sleep retry (backoff env b)] @ t2"
          by (subst (asm) retry_loop.simps) (simp add: Let_def and_then_def)
        with rec Some True show ?thesis by blast
      next
        case False
        then have "retry_loop env cfg promUrl metrics retries (retry + 1) b w1 = (None, w1, [])"
          by (subst retry_loop.simps) simp
        with lt l sel err snd e sent Some False
        have "p = None \<and> tr = [SelectClient retry (0 < retry), Send (int (nat retry)) req]"
          by (subst (asm) retry_loop.simps) (simp add: Let_def and_then_def)
        with Some False show ?thesis by blast
      qed
    qed
  qed
qed


lemma retry_loop_returns:
  "0 \<le> retry \<Longrightarrow> retry_loop env cfg promUrl metrics retries retry b w = (None, w', tr) \<Longrightarrow>
   attempts tr = map (\<lambda>n. (int n, 0 < n)) [nat retry..<nat retry + made_from env retries (nat retry)]
   \<and> slept tr = map int (filter (\<lambda>n. n + 1 < nat retries) (failing_from env retries (nat retry)))"
proof (induction "nat (retries - retry)" arbitrary: retry b w tr)
  case 0
  then have ge: "\<not> retry < retries" by simp
  with 0 have "nat retries \<le> nat retry" by simp
  from from_end [OF this, of env]
  have "failing_from env retries (nat retry) = []" "made_from env retries (nat retry) = 0" by simp_all
  moreover from ge 0(3) have "tr = []"
    by (subst (asm) retry_loop.simps) simp
  ultimately show ?case by simp
next
  case (Suc k)
  then have lt: "retry < retries" and r0: "0 \<le> retry" by simp_all
  then have ltn: "nat retry < nat retries" by simp
  have next_nat: "nat (retry + 1) = Suc (nat retry)" using r0 by simp
  have k: "k = nat (retries - (retry + 1))" using Suc.hyps(2) by simp
  have r1: "0 \<le> retry + 1" using r0 by simp
  from retry_loop_step [OF lt Suc.prems(2)]
  consider
    (success) req where "transport env (nat retry) = None"
      "tr = [SelectClient retry (0 < retry), Send (int (nat retry)) req]"
  | (again) req w1 t' where "transport env (nat retry) \<noteq> None" "retry + 1 < retries"
      "retry_loop env cfg promUrl metrics retries (retry + 1) (b + 1) w1 = (None, w', t')"
      "tr = [SelectClient retry (0 < retry), Send (int (nat retry)) req, Sleep retry (backoff env b)] @ t'"
  | (last) req where "transport env (nat retry) \<noteq> None" "\<not> retry + 1 < retries"
      "tr = [SelectClient retry (0 < retry), Send (int (nat retry)) req]"
    by auto
  then show ?case
  proof cases
    case success
    from from_success [OF ltn success(1)]
    have "failing_from env retries (nat retry) = []" "made_from env retries (nat retry) = 1" by simp_all
    with success(2) r0 show ?thesis by simp
  next
    case again
    from from_failure [OF ltn again(1)]
    have f: "failing_from env retries (nat retry) = nat retry # failing_from env retries (Suc (nat retry))"
      "made_from env retries (nat retry) = made_from env retries (Suc (nat retry)) + 1" by simp_all
    from Suc.hyps(1) [OF k r1 again(3)]
    have "attempts t' = map (\<lambda>n. (int n, 0 < n))
            [nat (retry + 1)..<nat (retry + 1) + made_from env retries (nat (retry + 1))]"
      "slept t' = map int (filter (\<lambda>n. n + 1 < nat retries) (failing_from env retries (nat (retry + 1))))"
      by simp_all
    moreover have "nat retry + 1 < nat retries" using again(2) r0 by simp
    ultimately show ?thesis
      using f again(4) r0 next_nat by (simp add: upt_conv_Cons [of "nat retry"])
  next
    case last
    from from_failure [OF ltn last(1)]
    have f: "failing_from env retries (nat retry) = nat retry # failing_from env retries (Suc (nat retry))"
      "made_from env retries (nat retry) = made_from env retries (Suc (nat retry)) + 1" by simp_all
    from last(2) r0 have "nat retries \<le> Suc (nat retry)" by simp
    from from_end [OF this, of env]
    have e: "failing_from env retries (Suc (nat retry)) = []" "made_from env retries (Suc (nat retry)) = 0"
      by simp_all
    moreover have "\<not> nat retry + 1 < nat retries" using last(2) r0 by simp
    ultimately show ?thesis
      using f last(3) r0 by simp
  qed
qed

lemma retry_loop_numbering:
  "0 \<le> retry \<Longrightarrow> retry_loop env cfg promUrl metrics retries retry b w = (p, w', tr) \<Longrightarrow>
   attempts tr = map (\<lambda>n. (int n, 0 < n)) [nat retry..<nat retry + length (attempts tr)]
   \<and> int (length (attempts tr)) \<le> max 0 (retries - retry)
   \<and> (\<forall>n \<in> set (slept tr). retry \<le> n \<and> n + 1 < retries)"
proof (induction "nat (retries - retry)" arbitrary: retry b w tr)
  case 0
  then have ge: "\<not> retry < retries" by simp
  with 0(3) have "tr = []"
    by (subst (asm) retry_loop.simps) simp
  then show ?case by simp
next
  case (Suc k)
  then have lt: "retry < retries" and r0: "0 \<le> retry" by simp_all
  have next_nat: "nat (retry + 1) = Suc (nat retry)" using r0 by simp
  have k: "k = nat (retries - (retry + 1))" using Suc.hyps(2) by simp
  have r1: "0 \<le> retry + 1" using r0 by simp
  from retry_loop_step [OF lt Suc.prems(2)]
  consider
    (one) "attempts tr = [(retry, 0 < retry)]" "slept tr = []"
  | (again) req w1 t' where "retry + 1 < retries"
      "retry_loop env cfg promUrl metrics retries (retry + 1) (b + 1) w1 = (p, w', t')"
      "tr = [SelectClient retry (0 < retry), Send (int (nat retry)) req, Sleep retry (backoff env b)] @ t'"
    by auto
  then show ?case
  proof cases
    case one
    with lt r0 show ?thesis by simp
  next
    case again
    from Suc.hyps(1) [OF k r1 again(2)]
    have a: "attempts t' = map (\<lambda>n. (int n, 0 < n)) [nat (retry + 1)..<nat (retry + 1) + length (attempts t')]"
      and b: "int (length (attempts t')) \<le> max 0 (retries - (retry + 1))"
      and c: "\<forall>n \<in> set (slept t'). retry + 1 \<le> n \<and> n + 1 < retries"
      by simp_all
    have tr: "attempts tr = (retry, 0 < retry) # attempts t'" "slept tr = retry # slept t'"
      using again(3) by simp_all
    have "[nat retry..<nat retry + Suc (length (attempts t'))] =
        nat retry # [Suc (nat retry)..<nat retry + Suc (length (attempts t'))]"
      by (rule upt_conv_Cons) simp
    then have list: "[nat retry..<nat retry + length (attempts tr)] =
        nat retry # [nat (retry + 1)..<nat (retry + 1) + length (attempts t')]"
      using tr(1) next_nat by simp
    have "map (\<lambda>n. (int n, 0 < n)) [nat retry..<nat retry + length (attempts tr)] =
        (int (nat retry), 0 < nat retry) # attempts t'"
      using a by (simp only: list list.map)
    with tr(1) r0 have one: "attempts tr = map (\<lambda>n. (int n, 0 < n)) [nat retry..<nat retry + length (attempts tr)]"
      by simp
    have two: "int (length (attempts tr)) \<le> max 0 (retries - retry)"
      using tr(1) b again(1) by simp
    have three: "\<forall>n \<in> set (slept tr). retry \<le> n \<and> n + 1 < retries"
      using tr(2) c again(1) by auto
    from one two three show ?thesis by simp
  qed
qed

lemma Publish_returned:
  assumes d: "decode env contentType content = Inr metrics"
    and rt: "assertInt cfg ''retries'' = Return retries"
    and r: "Publish env contentType content cfg w = (Return r, w', tr)"
  shows "r = None \<and> attempts tr = map (\<lambda>n. (int n, 0 < n)) [0..<made_from env retries 0]
     \<and> slept tr = map int (filter (\<lambda>n. n + 1 < nat retries) (failing_from env retries 0))"
proof -
  from d rt r obtain promUrl where
    "retry_loop env cfg promUrl metrics retries 0 0 w = (None, w', tr)" and "r = None"
    by (auto simp: Publish_def split: outcome.splits option.splits prod.splits)
  with retry_loop_returns [of 0 env cfg promUrl metrics retries 0 w w' tr]
  show ?thesis by simp
qed

lemma Publish_numbering:
  assumes r: "Publish env contentType content cfg w = (res, w', tr)"
  shows "attempts tr = map (\<lambda>n. (int n, 0 < n)) [0..<length (attempts tr)]
     \<and> (\<forall>retries. assertInt cfg ''retries'' = Return retries \<longrightarrow>
          int (length (attempts tr)) \<le> max 0 retries \<and> (\<forall>n \<in> set (slept tr). 0 \<le> n \<and> n + 1 < retries))"
proof (cases "tr = []")
  case True
  then show ?thesis by simp
next
  case False
  with r obtain promUrl metrics retries p where
    rt: "assertInt cfg ''retries'' = Return retries"
    and l: "retry_loop env cfg promUrl metrics retries 0 0 w = (p, w', tr)"
    by (auto simp: Publish_def split: sum.splits outcome.splits option.splits prod.splits)
  from retry_loop_numbering [of 0 env cfg promUrl metrics retries 0 w p w' tr] l rt
  show ?thesis by simp
qed


lemma gateway_ready:
  "ready (gateway_env outcomes) (gateway_config ''batch1'' r t) no_connections
     ''http://gw:9091/metrics/job/batch1'' r"
proof -
  have "prometheusUrl (parse (gateway_env outcomes)) (gateway_config ''batch1'' r t) =
      Return (Some ''http://gw:9091/metrics/job/batch1'', None)"
    by (simp add: gateway_parse gateway_url)
  moreover have "\<not> isl (parse (gateway_env outcomes) ''http://gw:9091/metrics/job/batch1'')"
    by (simp add: gateway_parse escape_parser_def)
  moreover have "returns (assertInt (gateway_config ''batch1'' r t) ''timeout_secs'')"
    "returns (assertBool (gateway_config ''batch1'' r t) ''replace'')"
    "assertInt (gateway_config ''batch1'' r t) ''retries'' = Return r"
    by (simp_all add: returns_def gateway_config_def assertInt_def assertBool_def)
  moreover have "pool_ok no_connections"
    by (simp add: pool_ok_def no_connections_def)
  ultimately show ?thesis
    unfolding ready_def by (intro conjI)
qed

lemma gateway_transport: "transport (gateway_env outcomes) n = outcomes n"
  by (simp add: gateway_env_def)

text \<open>
  Claim C4. In every call, whatever its outcome, the attempts are numbered from 0 without
  a gap, \<^verbatim>\<open>forceRefresh\<close> is false on attempt 0 and true on every later one, there
  are at most \<^verbatim>\<open>retries\<close> of them, and the call sleeps only after an attempt that
  is not the last one allowed. In every call that returns, the attempts are those up to
  and including the first whose exchange succeeds, or all \<^verbatim>\<open>retries\<close> of them when
  none does; the call returns nil and has slept after each failed attempt but the last
  one allowed. When nothing makes an attempt panic the call does return; so with three
  retries and exchanges that fail twice and then succeed, it makes the attempts 0, 1 and
  2, sleeps after the attempts 0 and 1, and returns nil.
\<close>

theorem Publish_attempts:
  "(Publish env contentType content cfg w = (res, w_end, tr_end) \<longrightarrow>
      attempts tr_end = map (\<lambda>n. (int n, 0 < n)) [0..<length (attempts tr_end)]
      \<and> (\<forall>rs. assertInt cfg ''retries'' = Return rs \<longrightarrow>
            int (length (attempts tr_end)) \<le> max 0 rs \<and> (\<forall>n \<in> set (slept tr_end). 0 \<le> n \<and> n + 1 < rs)))
   \<and> (decode env contentType content = Inr metrics \<and> assertInt cfg ''retries'' = Return retries
        \<and> Publish env contentType content cfg w = (Return r, w_end, tr_end) \<longrightarrow>
      r = None \<and> attempts tr_end = map (\<lambda>n. (int n, 0 < n)) [0..<made_from env retries 0]
      \<and> slept tr_end = map int (filter (\<lambda>n. n + 1 < nat retries) (failing_from env retries 0)))
   \<and> (decode env contentType content = Inr metrics \<and> ready env cfg w url retries \<longrightarrow>
      (\<exists>w' tr. Publish env contentType content cfg w = (Return None, w', tr)
         \<and> attempts tr = map (\<lambda>n. (int n, 0 < n)) [0..<made_from env retries 0]
         \<and> slept tr = map int (filter (\<lambda>n. n + 1 < nat retries) (failing_from env retries 0))))
   \<and> failing_from env retries 0 = takeWhile (\<lambda>n. transport env n \<noteq> None) [0..<nat retries]
   \<and> made_from env retries 0 \<le> nat retries
   \<and> (n < nat retries \<and> transport env n = None \<and> (\<forall>i<n. transport env i \<noteq> None) \<longrightarrow>
        failing_from env retries 0 = [0..<n] \<and> made_from env retries 0 = n + 1)
   \<and> ((\<forall>i<nat retries. transport env i \<noteq> None) \<longrightarrow>
        failing_from env retries 0 = [0..<nat retries] \<and> made_from env retries 0 = nat retries)
   \<and> (decode env contentType content = Inr metrics \<and> ready env cfg w url 3
        \<and> transport env 0 \<noteq> None \<and> transport env 1 \<noteq> None \<and> transport env 2 = None \<longrightarrow>
      (\<exists>w' tr. Publish env contentType content cfg w = (Return None, w', tr)
         \<and> attempts tr = [(0, False), (1, True), (2, True)] \<and> slept tr = [0, 1]))"
proof (intro conjI impI)
  assume "Publish env contentType content cfg w = (res, w_end, tr_end)"
  from Publish_numbering [OF this]
  show "attempts tr_end = map (\<lambda>n. (int n, 0 < n)) [0..<length (attempts tr_end)]"
    and "\<forall>rs. assertInt cfg ''retries'' = Return rs \<longrightarrow>
            int (length (attempts tr_end)) \<le> max 0 rs \<and> (\<forall>n \<in> set (slept tr_end). 0 \<le> n \<and> n + 1 < rs)"
    by simp_all
next
  assume "decode env contentType content = Inr metrics \<and> assertInt cfg ''retries'' = Return retries
        \<and> Publish env contentType content cfg w = (Return r, w_end, tr_end)"
  then have "decode env contentType content = Inr metrics" "assertInt cfg ''retries'' = Return retries"
    "Publish env contentType content cfg w = (Return r, w_end, tr_end)" by simp_all
  from Publish_returned [OF this]
  show "r = None" "attempts tr_end = map (\<lambda>n. (int n, 0 < n)) [0..<made_from env retries 0]"
    "slept tr_end = map int (filter (\<lambda>n. n + 1 < nat retries) (failing_from env retries 0))"
    by simp_all
next
  assume "decode env contentType content = Inr metrics \<and> ready env cfg w url retries"
  then have d: "decode env contentType content = Inr metrics" and r: "ready env cfg w url retries"
    by simp_all
  from Publish_runs [OF d r]
  show "\<exists>w' tr. Publish env contentType content cfg w = (Return None, w', tr)
         \<and> attempts tr = map (\<lambda>n. (int n, 0 < n)) [0..<made_from env retries 0]
         \<and> slept tr = map int (filter (\<lambda>n. n + 1 < nat retries) (failing_from env retries 0))" .
next
  show "failing_from env retries 0 = takeWhile (\<lambda>n. transport env n \<noteq> None) [0..<nat retries]"
    by (simp add: failing_from_def)
  show "made_from env retries 0 \<le> nat retries"
    using made_le [of 0 retries env] by simp
next
  assume h: "n < nat retries \<and> transport env n = None \<and> (\<forall>i<n. transport env i \<noteq> None)"
  then have "failing_from env retries 0 = [0..<n] \<and> made_from env retries 0 = n + 1"
    by (intro first_success) simp_all
  then show "failing_from env retries 0 = [0..<n]" "made_from env retries 0 = n + 1" by simp_all
next
  assume h: "\<forall>i<nat retries. transport env i \<noteq> None"
  from all_fail [OF h]
  show "failing_from env retries 0 = [0..<nat retries]" "made_from env retries 0 = nat retries" by simp_all
next
  assume h: "decode env contentType content = Inr metrics \<and> ready env cfg w url 3
        \<and> transport env 0 \<noteq> None \<and> transport env 1 \<noteq> None \<and> transport env 2 = None"
  then have d: "decode env contentType content = Inr metrics" and r: "ready env cfg w url 3" by simp_all
  have "\<forall>i<2. transport env i \<noteq> None"
  proof (intro allI impI)
    fix i :: nat assume "i < 2"
    then have "i = 0 \<or> i = 1" by arith
    with h show "transport env i \<noteq> None" by auto
  qed
  with h first_success [of 2 3 env]
  have f: "failing_from env 3 0 = [0..<2]" "made_from env 3 0 = 3" by simp_all
  have u2: "[0..<2] = [0, Suc 0]" "[0..<3] = [0, Suc 0, 2]"
    by (simp_all add: upt_rec)
  from Publish_runs [OF d r] obtain w' tr where
    "Publish env contentType content cfg w = (Return None, w', tr)"
    "attempts tr = map (\<lambda>n. (int n, 0 < n)) [0..<made_from env 3 0]"
    "slept tr = map int (filter (\<lambda>n. n + 1 < nat 3) (failing_from env 3 0))"
    by blast
  with f u2 show "\<exists>w' tr. Publish env contentType content cfg w = (Return None, w', tr)
         \<and> attempts tr = [(0, False), (1, True), (2, True)] \<and> slept tr = [0, 1]"
    by simp
qed

theorem Publish_attempts_witness:
  "\<exists>w' tr. Publish (gateway_env (\<lambda>n. if n < 2 then Some ''connection refused'' else None))
              ''snap.gob'' [] (gateway_config ''batch1'' 3 10) no_connections = (Return None, w', tr)
     \<and> attempts tr = [(0, False), (1, True), (2, True)] \<and> slept tr = [0, 1]"
proof -
  let ?env = "gateway_env (\<lambda>n. if n < 2 then Some ''connection refused'' else None)"
  let ?cfg = "gateway_config ''batch1'' 3 10"
  have h: "decode ?env ''snap.gob'' [] = Inr [cpu_metric 0]
      \<and> ready ?env ?cfg no_connections ''http://gw:9091/metrics/job/batch1'' 3
      \<and> transport ?env 0 \<noteq> None \<and> transport ?env 1 \<noteq> None \<and> transport ?env 2 = None"
    by (simp add: gateway_decodes gateway_ready gateway_transport)
  have "decode ?env ''snap.gob'' [] = Inr [cpu_metric 0]
      \<and> ready ?env ?cfg no_connections ''http://gw:9091/metrics/job/batch1'' 3
      \<and> transport ?env 0 \<noteq> None \<and> transport ?env 1 \<noteq> None \<and> transport ?env 2 = None \<longrightarrow>
      (\<exists>w' tr. Publish ?env ''snap.gob'' [] ?cfg no_connections = (Return None, w', tr)
         \<and> attempts tr = [(0, False), (1, True), (2, True)] \<and> slept tr = [0, 1])"
    using Publish_attempts [where env = "?env" and contentType = "''snap.gob''" and content = "[]"
        and metrics = "[cpu_metric 0]" and cfg = "?cfg" and w = no_connections
        and url = "''http://gw:9091/metrics/job/batch1''" and retries = 3 and n = 2
        and res = "Return None" and r = None and w_end = no_connections and tr_end = "[]"]
    by (elim conjE)
  from this h show ?thesis by (rule mp)
qed

text \<open>
  Claim C2. A call that has decoded its batch and returns, returns nil, whatever became
  of its attempts. When all the exchanges of the \<^verbatim>\<open>retries\<close> attempts fail, a call
  that returns has made every one of these attempts and returns nil all the same; and
  when nothing makes an attempt panic, the call does return.
\<close>

theorem Publish_exhausted:
  "(decode env contentType content = Inr metrics
      \<and> Publish env contentType content cfg w = (Return r, w_end, tr_end) \<longrightarrow> r = None)
   \<and> (decode env contentType content = Inr metrics \<and> assertInt cfg ''retries'' = Return retries
        \<and> Publish env contentType content cfg w = (Return r, w_end, tr_end)
        \<and> (\<forall>n<nat retries. transport env n \<noteq> None) \<longrightarrow>
      r = None \<and> attempts tr_end = map (\<lambda>n. (int n, 0 < n)) [0..<nat retries])
   \<and> (decode env contentType content = Inr metrics \<and> ready env cfg w url retries
        \<and> (\<forall>n<nat retries. transport env n \<noteq> None) \<longrightarrow>
      (\<exists>w' tr. Publish env contentType content cfg w = (Return None, w', tr)
         \<and> attempts tr = map (\<lambda>n. (int n, 0 < n)) [0..<nat retries]))"
proof (intro conjI impI)
  assume "decode env contentType content = Inr metrics
      \<and> Publish env contentType content cfg w = (Return r, w_end, tr_end)"
  then show "r = None" using Publish_returns_nil by blast
next
  assume h: "decode env contentType content = Inr metrics \<and> assertInt cfg ''retries'' = Return retries
        \<and> Publish env contentType content cfg w = (Return r, w_end, tr_end)
        \<and> (\<forall>n<nat retries. transport env n \<noteq> None)"
  then have a: "decode env contentType content = Inr metrics" "assertInt cfg ''retries'' = Return retries"
    "Publish env contentType content cfg w = (Return r, w_end, tr_end)"
    and f: "\<forall>n<nat retries. transport env n \<noteq> None" by simp_all
  from all_fail [OF f] have m: "made_from env retries 0 = nat retries" by simp
  from Publish_returned [OF a] m
  show "r = None" "attempts tr_end = map (\<lambda>n. (int n, 0 < n)) [0..<nat retries]" by simp_all
next
  assume h: "decode env contentType content = Inr metrics \<and> ready env cfg w url retries
        \<and> (\<forall>n<nat retries. transport env n \<noteq> None)"
  then have d: "decode env contentType content = Inr metrics" and r: "ready env cfg w url retries"
    and f: "\<forall>n<nat retries. transport env n \<noteq> None" by simp_all
  from all_fail [OF f] have m: "made_from env retries 0 = nat retries" by simp
  from Publish_runs [OF d r] m
  show "\<exists>w' tr. Publish env contentType content cfg w = (Return None, w', tr)
         \<and> attempts tr = map (\<lambda>n. (int n, 0 < n)) [0..<nat retries]"
    by auto
qed

theorem Publish_exhausted_witness:
  "\<exists>w' tr. Publish (gateway_env (\<lambda>n. Some ''connection refused''))
              ''snap.gob'' [] (gateway_config ''batch1'' 3 10) no_connections = (Return None, w', tr)
     \<and> attempts tr = [(0, False), (1, True), (2, True)]"
proof -
  let ?env = "gateway_env (\<lambda>n. Some ''connection refused'')"
  let ?cfg = "gateway_config ''batch1'' 3 10"
  have h: "decode ?env ''snap.gob'' [] = Inr [cpu_metric 0]
      \<and> ready ?env ?cfg no_connections ''http://gw:9091/metrics/job/batch1'' 3
      \<and> (\<forall>n<nat 3. transport ?env n \<noteq> None)"
    by (simp add: gateway_decodes gateway_ready gateway_transport)
  have "decode ?env ''snap.gob'' [] = Inr [cpu_metric 0]
      \<and> ready ?env ?cfg no_connections ''http://gw:9091/metrics/job/batch1'' 3
      \<and> (\<forall>n<nat 3. transport ?env n \<noteq> None) \<longrightarrow>
      (\<exists>w' tr. Publish ?env ''snap.gob'' [] ?cfg no_connections = (Return None, w', tr)
         \<and> attempts tr = map (\<lambda>n. (int n, 0 < n)) [0..<nat 3])"
    by (rule conjunct2 [OF conjunct2 [OF Publish_exhausted [where env = "?env" and contentType = "''snap.gob''"
        and content = "[]" and metrics = "[cpu_metric 0]" and cfg = "?cfg" and w = no_connections
        and url = "''http://gw:9091/metrics/job/batch1''" and retries = 3 and r = None
        and w_end = no_connections and tr_end = "[]"]]])
  from this h have "\<exists>w' tr. Publish ?env ''snap.gob'' [] ?cfg no_connections = (Return None, w', tr)
         \<and> attempts tr = map (\<lambda>n. (int n, 0 < n)) [0..<nat 3]"
    by (rule mp)
  moreover have "map (\<lambda>n. (int n, 0 < n)) [0..<nat 3] = [(0, False), (1, True), (2, True)]"
    by (simp add: upt_rec)
  ultimately show ?thesis by simp
qed


end
